theory Spec2Isabelle
  imports Complex_Main "HOL-Library.Multiset" "HOL-Library.Sublist"
begin

section \<open>Events and the event queue\<close>

text \<open>
  Simulated time is a C++ \<open>double\<close>.  Every duration of the program is a multiple of
  \<open>0.5\<close> and the shift duration is an \<open>int\<close>, so the sums and comparisons the program
  performs are exact in binary floating point (below \<open>2^53\<close>); time is modelled by the
  rationals, where the same sums and comparisons are exact.  The breakdown probabilities
  are only compared with samples, which are a parameter of the model.

  An \<open>Event\<close> is a timestamp and a deferred action.  The closures of the source are
  represented by a value of the type parameter \<open>'a\<close> that names the lambda and carries
  what it captures.
\<close>

record 'a Event =
  time :: rat
  action :: 'a

text \<open>\<open>Event::operator>\<close>: only the timestamps are compared.\<close>

definition Event_gt :: "'a Event \<Rightarrow> 'a Event \<Rightarrow> bool" where
  "Event_gt e other = (time e > time other)"

text \<open>
  \<open>std::priority_queue<Event, std::vector<Event>, std::greater<Event>>\<close> keeps its
  vector as a binary heap: \<open>push\<close> is \<open>push_back\<close> then \<open>std::push_heap\<close>, \<open>pop\<close> is
  \<open>std::pop_heap\<close> then \<open>pop_back\<close>, \<open>top\<close> is \<open>front\<close>.  The heap algorithms are the
  ones of the C++ standard library (libstdc++ \<open>__push_heap\<close>, \<open>__adjust_heap\<close>; the
  Microsoft library has the same two loops), with the comparison
  \<open>comp(a, b) = a > b\<close>.  The vector is a list, an iterator \<open>first + i\<close> is the index \<open>i\<close>.
\<close>

function std_push_heap_loop ::
  "'a Event list \<Rightarrow> nat \<Rightarrow> nat \<Rightarrow> 'a Event \<Rightarrow> 'a Event list" where
  "std_push_heap_loop first holeIndex topIndex v =
     (let parent = (holeIndex - 1) div 2 in
      if holeIndex > topIndex \<and> Event_gt (first ! parent) v
      then std_push_heap_loop (first[holeIndex := first ! parent]) parent topIndex v
      else first[holeIndex := v])"
  by pat_completeness auto
termination
  by (relation "measure (\<lambda>(first, holeIndex, topIndex, v). holeIndex)") auto

declare std_push_heap_loop.simps [simp del]

text \<open>
  The first loop of \<open>__adjust_heap\<close>: the hole moves down to the child that is not
  greater (by \<open>comp\<close>) than its sibling.  It returns the vector, \<open>holeIndex\<close> and
  \<open>secondChild\<close>.
\<close>

function std_adjust_heap_loop ::
  "'a Event list \<Rightarrow> nat \<Rightarrow> nat \<Rightarrow> nat \<Rightarrow> 'a Event list \<times> nat \<times> nat" where
  "std_adjust_heap_loop first holeIndex secondChild len =
     (if secondChild < (len - 1) div 2
      then let sc = 2 * (secondChild + 1);
               sc' = (if Event_gt (first ! sc) (first ! (sc - 1)) then sc - 1 else sc)
           in std_adjust_heap_loop (first[holeIndex := first ! sc']) sc' sc' len
      else (first, holeIndex, secondChild))"
  by pat_completeness auto
termination
  by (relation "measure (\<lambda>(first, holeIndex, secondChild, len). len - secondChild)") auto

declare std_adjust_heap_loop.simps [simp del]

text \<open>
  \<open>__adjust_heap\<close>.  The source computes \<open>(len - 2) / 2\<close> on a signed type; for
  \<open>len = 0\<close> that is \<open>-1\<close> and the test fails, which the guard \<open>len \<noteq> 0\<close> writes out
  for the natural numbers.
\<close>

definition std_adjust_heap ::
  "'a Event list \<Rightarrow> nat \<Rightarrow> nat \<Rightarrow> 'a Event \<Rightarrow> 'a Event list" where
  "std_adjust_heap first holeIndex len v =
     (let topIndex = holeIndex in
      case std_adjust_heap_loop first holeIndex holeIndex len of
        (first1, holeIndex1, secondChild1) \<Rightarrow>
          if len mod 2 = 0 \<and> len \<noteq> 0 \<and> secondChild1 = (len - 2) div 2
          then let secondChild2 = 2 * (secondChild1 + 1)
               in std_push_heap_loop (first1[holeIndex1 := first1 ! (secondChild2 - 1)])
                    (secondChild2 - 1) topIndex v
          else std_push_heap_loop first1 holeIndex1 topIndex v)"

text \<open>\<open>std::push_heap(first, last)\<close>: the value at \<open>last - 1\<close> is sifted up.\<close>

definition std_push_heap :: "'a Event list \<Rightarrow> 'a Event list" where
  "std_push_heap c = std_push_heap_loop c (length c - 1) 0 (c ! (length c - 1))"

text \<open>
  \<open>std::pop_heap(first, last)\<close>: for more than one element, the last value is taken
  out, the first is stored in its place, and the hole at the root is filled from the
  first \<open>last - first - 1\<close> elements.
\<close>

definition std_pop_heap :: "'a Event list \<Rightarrow> 'a Event list" where
  "std_pop_heap c =
     (if length c > 1
      then let result = length c - 1; v = c ! result
           in std_adjust_heap (c[result := c ! 0]) 0 result v
      else c)"

definition priority_queue_push :: "'a Event list \<Rightarrow> 'a Event \<Rightarrow> 'a Event list" where
  "priority_queue_push c x = std_push_heap (c @ [x])"

definition priority_queue_pop :: "'a Event list \<Rightarrow> 'a Event list" where
  "priority_queue_pop c = butlast (std_pop_heap c)"

text \<open>\<open>top\<close> is only called on a non-empty queue (the loop of \<open>run\<close> tests \<open>empty\<close>).\<close>

definition priority_queue_top :: "'a Event list \<Rightarrow> 'a Event" where
  "priority_queue_top c = hd c"

section \<open>Simulation\<close>

text \<open>
  The class \<open>Simulation\<close>.  The objects that the scheduled closures capture by
  reference (the machines and the manufacturing system that owns the simulation) are
  the extension part of the record: an action is a function on the whole record.
\<close>

record 'a Simulation =
  currentTime :: rat
  eventQueue :: "'a Event list"

definition Simulation_scheduleEvent ::
  "rat \<Rightarrow> 'a \<Rightarrow> ('a, 'z) Simulation_scheme \<Rightarrow> ('a, 'z) Simulation_scheme" where
  "Simulation_scheduleEvent t a s =
     s\<lparr>eventQueue := priority_queue_push (eventQueue s) \<lparr>time = t, action = a\<rparr>\<rparr>"

definition Simulation_getCurrentTime :: "('a, 'z) Simulation_scheme \<Rightarrow> rat" where
  "Simulation_getCurrentTime s = currentTime s"

text \<open>One iteration of the loop of \<open>Simulation::run\<close>; \<open>exec\<close> calls an action.\<close>

definition Simulation_step ::
  "('a \<Rightarrow> ('a, 'z) Simulation_scheme \<Rightarrow> ('a, 'z) Simulation_scheme) \<Rightarrow>
   ('a, 'z) Simulation_scheme \<Rightarrow> ('a, 'z) Simulation_scheme" where
  "Simulation_step exec s =
     (let nextEvent = priority_queue_top (eventQueue s);
          s1 = s\<lparr>eventQueue := priority_queue_pop (eventQueue s)\<rparr>;
          s2 = s1\<lparr>currentTime := time nextEvent\<rparr>
      in exec (action nextEvent) s2)"

text \<open>\<open>Simulation::run\<close>: the result is \<open>None\<close> when the loop never ends.\<close>

partial_function (option) Simulation_run ::
  "('a \<Rightarrow> ('a, 'z) Simulation_scheme \<Rightarrow> ('a, 'z) Simulation_scheme) \<Rightarrow>
   ('a, 'z) Simulation_scheme \<Rightarrow> ('a, 'z) Simulation_scheme option" where
  [code]: "Simulation_run exec s =
     (if eventQueue s \<noteq> [] then Simulation_run exec (Simulation_step exec s) else Some s)"

text \<open>The state after at most \<open>n\<close> iterations of the loop of \<open>Simulation::run\<close>.\<close>

primrec Simulation_run_upto ::
  "('a \<Rightarrow> ('a, 'z) Simulation_scheme \<Rightarrow> ('a, 'z) Simulation_scheme) \<Rightarrow> nat \<Rightarrow>
   ('a, 'z) Simulation_scheme \<Rightarrow> ('a, 'z) Simulation_scheme" where
  "Simulation_run_upto exec 0 s = s"
| "Simulation_run_upto exec (Suc n) s =
     (if eventQueue s \<noteq> [] then Simulation_run_upto exec n (Simulation_step exec s) else s)"

section \<open>Machine\<close>

text \<open>
  The five \<open>Machine\<close> members of the manufacturing system; a closure that captures
  \<open>this\<close> of a machine carries the member's name.
\<close>

datatype MachineId = RawMaterialHandler | Machining | Assembly | QualityControl | Packaging

text \<open>The closures the constructor of \<open>ManufacturingSystem\<close> passes as \<open>onProcessComplete\<close>.\<close>

datatype Callback =
  CallStartMachining | CallStartAssembly | CallStartQualityControl | CallStartPackaging
  | CallFinishProduct

text \<open>
  The closures scheduled as events: \<open>[this]() { this->startShift(); }\<close>,
  \<open>[this]() { this->endShift(); }\<close>, the retry closure of \<open>Machine::startProcessing\<close>
  (it captures the machine, the product type and the shift end time) and its
  completion closure (it captures the machine and the product type).
\<close>

datatype Action =
  StartShiftLambda
  | EndShiftLambda
  | RetryLambda MachineId string rat
  | CompleteLambda MachineId string

text \<open>The lines written to \<open>std::cout\<close>, without their formatting.\<close>

datatype Output =
  MachineStarted string string rat
  | MachineBrokeDown string
  | MachineFinished string string rat
  | ProductFinished string rat
  | ShiftStarted int rat
  | ShiftEnded int rat
  | Results int rat

text \<open>
  A \<open>std::unordered_map<std::string, double>\<close> that is only read with
  \<open>operator[]\<close> is the function from keys to values that is \<open>0.0\<close> at a missing key
  (\<open>operator[]\<close> inserts a value-initialised entry there, which later reads return
  again).  Of a repeated key in the initialiser list the first entry is kept.
\<close>

definition unordered_map :: "(string \<times> rat) list \<Rightarrow> string \<Rightarrow> rat" where
  "unordered_map kvs k = (case map_of kvs k of Some v \<Rightarrow> v | None \<Rightarrow> 0)"

text \<open>
  \<open>generator\<close> counts the samples drawn so far; the value of the \<open>n\<close>-th call
  \<open>distribution(generator)\<close> of a machine is a parameter \<open>uniform\<close> of the model.
\<close>

record Machine =
  name :: string
  processTimes :: "string \<Rightarrow> rat"
  setupTimes :: "string \<Rightarrow> rat"
  onProcessComplete :: Callback
  breakdownProbability :: rat
  maintenanceTime :: rat
  generator :: nat
  isBusy :: bool

definition Machine_new ::
  "string \<Rightarrow> (string \<Rightarrow> rat) \<Rightarrow> (string \<Rightarrow> rat) \<Rightarrow> Callback \<Rightarrow> rat \<Rightarrow> rat \<Rightarrow> Machine" where
  "Machine_new name' processTimes' setupTimes' onProcessComplete' breakdownProbability'
     maintenanceTime' =
     \<lparr>name = name', processTimes = processTimes', setupTimes = setupTimes',
      onProcessComplete = onProcessComplete', breakdownProbability = breakdownProbability',
      maintenanceTime = maintenanceTime', generator = 0, isBusy = False\<rparr>"

definition Machine_isAvailable :: "Machine \<Rightarrow> bool" where
  "Machine_isAvailable m = (\<not> isBusy m)"

section \<open>ManufacturingSystem\<close>

text \<open>
  The class \<open>ManufacturingSystem\<close> with its member \<open>simulation\<close> (the fields of the
  record \<open>Simulation\<close>) and the output stream \<open>std::cout\<close>.  The \<open>int\<close> members are
  integers; the theorems below bound \<open>currentShift\<close> and \<open>productsCompleted\<close>, so the
  increments of the source do not overflow.
\<close>

record ManufacturingSystem = "Action Simulation" +
  rawMaterialHandler :: Machine
  machining :: Machine
  assembly :: Machine
  qualityControl :: Machine
  packaging :: Machine
  productsCompleted :: int
  shiftDuration :: int
  currentShift :: int
  shiftCount :: int
  shiftEndTime :: rat
  productQueue :: "string list"
  cout :: "Output list"

fun machine :: "MachineId \<Rightarrow> ManufacturingSystem \<Rightarrow> Machine" where
  "machine RawMaterialHandler s = rawMaterialHandler s"
| "machine Machining s = machining s"
| "machine Assembly s = assembly s"
| "machine QualityControl s = qualityControl s"
| "machine Packaging s = packaging s"

fun machine_update ::
  "MachineId \<Rightarrow> (Machine \<Rightarrow> Machine) \<Rightarrow> ManufacturingSystem \<Rightarrow> ManufacturingSystem" where
  "machine_update RawMaterialHandler f s = s\<lparr>rawMaterialHandler := f (rawMaterialHandler s)\<rparr>"
| "machine_update Machining f s = s\<lparr>machining := f (machining s)\<rparr>"
| "machine_update Assembly f s = s\<lparr>assembly := f (assembly s)\<rparr>"
| "machine_update QualityControl f s = s\<lparr>qualityControl := f (qualityControl s)\<rparr>"
| "machine_update Packaging f s = s\<lparr>packaging := f (packaging s)\<rparr>"

definition print :: "Output \<Rightarrow> ManufacturingSystem \<Rightarrow> ManufacturingSystem" where
  "print line s = s\<lparr>cout := cout s @ [line]\<rparr>"

text \<open>
  \<open>Machine::startProcessing\<close> of the machine \<open>this\<close>.  It reads and writes the machine,
  the simulation it refers to and \<open>std::cout\<close>, so it is a function on the system.
\<close>

definition Machine_startProcessing ::
  "(MachineId \<Rightarrow> nat \<Rightarrow> rat) \<Rightarrow> MachineId \<Rightarrow> string \<Rightarrow> rat \<Rightarrow>
   ManufacturingSystem \<Rightarrow> ManufacturingSystem" where
  "Machine_startProcessing uniform this productType shiftEndTime' s =
     (if isBusy (machine this s)
         \<or> Simulation_getCurrentTime s + processTimes (machine this s) productType
             > shiftEndTime'
      then s
      else
        let s1 = machine_update this (\<lambda>m. m\<lparr>isBusy := True\<rparr>) s;
            s2 = print (MachineStarted (name (machine this s1)) productType
                          (Simulation_getCurrentTime s1)) s1;
            totalTime = processTimes (machine this s2) productType
                          + setupTimes (machine this s2) productType;
            sample = uniform this (generator (machine this s2));
            s3 = machine_update this (\<lambda>m. m\<lparr>generator := generator m + 1\<rparr>) s2
        in if sample < breakdownProbability (machine this s3)
           then let s4 = print (MachineBrokeDown (name (machine this s3))) s3
                in Simulation_scheduleEvent
                     (Simulation_getCurrentTime s4 + maintenanceTime (machine this s4))
                     (RetryLambda this productType shiftEndTime') s4
           else Simulation_scheduleEvent (Simulation_getCurrentTime s3 + totalTime)
                  (CompleteLambda this productType) s3)"

definition printResults :: "ManufacturingSystem \<Rightarrow> ManufacturingSystem" where
  "printResults s = print (Results (productsCompleted s) (Simulation_getCurrentTime s)) s"

definition startProduction ::
  "(MachineId \<Rightarrow> nat \<Rightarrow> rat) \<Rightarrow> ManufacturingSystem \<Rightarrow> ManufacturingSystem" where
  "startProduction uniform s =
     (if productQueue s \<noteq> []
      then let productType = hd (productQueue s);
               s1 = s\<lparr>productQueue := tl (productQueue s)\<rparr>
           in Machine_startProcessing uniform RawMaterialHandler productType (shiftEndTime s1) s1
      else s)"

definition startMachining ::
  "(MachineId \<Rightarrow> nat \<Rightarrow> rat) \<Rightarrow> string \<Rightarrow> ManufacturingSystem \<Rightarrow> ManufacturingSystem" where
  "startMachining uniform productType s =
     Machine_startProcessing uniform Machining productType (shiftEndTime s) s"

definition startAssembly ::
  "(MachineId \<Rightarrow> nat \<Rightarrow> rat) \<Rightarrow> string \<Rightarrow> ManufacturingSystem \<Rightarrow> ManufacturingSystem" where
  "startAssembly uniform productType s =
     Machine_startProcessing uniform Assembly productType (shiftEndTime s) s"

definition startQualityControl ::
  "(MachineId \<Rightarrow> nat \<Rightarrow> rat) \<Rightarrow> string \<Rightarrow> ManufacturingSystem \<Rightarrow> ManufacturingSystem" where
  "startQualityControl uniform productType s =
     Machine_startProcessing uniform QualityControl productType (shiftEndTime s) s"

definition startPackaging ::
  "(MachineId \<Rightarrow> nat \<Rightarrow> rat) \<Rightarrow> string \<Rightarrow> ManufacturingSystem \<Rightarrow> ManufacturingSystem" where
  "startPackaging uniform productType s =
     Machine_startProcessing uniform Packaging productType (shiftEndTime s) s"

definition finishProduct ::
  "(MachineId \<Rightarrow> nat \<Rightarrow> rat) \<Rightarrow> string \<Rightarrow> ManufacturingSystem \<Rightarrow> ManufacturingSystem" where
  "finishProduct uniform productType s =
     (let s1 = s\<lparr>productsCompleted := productsCompleted s + 1\<rparr>;
          s2 = print (ProductFinished productType (Simulation_getCurrentTime s1)) s1
      in if Simulation_getCurrentTime s2 < shiftEndTime s2
         then startProduction uniform s2
         else s2)"

definition startShift ::
  "(MachineId \<Rightarrow> nat \<Rightarrow> rat) \<Rightarrow> ManufacturingSystem \<Rightarrow> ManufacturingSystem" where
  "startShift uniform s =
     (let s1 = s\<lparr>currentShift := currentShift s + 1\<rparr>;
          s2 = s1\<lparr>shiftEndTime := Simulation_getCurrentTime s1 + of_int (shiftDuration s1)\<rparr>;
          s3 = print (ShiftStarted (currentShift s2) (Simulation_getCurrentTime s2)) s2;
          s4 = Simulation_scheduleEvent (shiftEndTime s3) EndShiftLambda s3
      in startProduction uniform s4)"

definition endShift :: "ManufacturingSystem \<Rightarrow> ManufacturingSystem" where
  "endShift s =
     (let s1 = print (ShiftEnded (currentShift s) (Simulation_getCurrentTime s)) s
      in if currentShift s1 < shiftCount s1
         then Simulation_scheduleEvent (Simulation_getCurrentTime s1) StartShiftLambda s1
         else printResults s1)"

text \<open>Calling a stored \<open>onProcessComplete\<close>.\<close>

fun call_onProcessComplete ::
  "(MachineId \<Rightarrow> nat \<Rightarrow> rat) \<Rightarrow> Callback \<Rightarrow> string \<Rightarrow>
   ManufacturingSystem \<Rightarrow> ManufacturingSystem" where
  "call_onProcessComplete uniform CallStartMachining p s = startMachining uniform p s"
| "call_onProcessComplete uniform CallStartAssembly p s = startAssembly uniform p s"
| "call_onProcessComplete uniform CallStartQualityControl p s = startQualityControl uniform p s"
| "call_onProcessComplete uniform CallStartPackaging p s = startPackaging uniform p s"
| "call_onProcessComplete uniform CallFinishProduct p s = finishProduct uniform p s"

text \<open>Calling a scheduled closure (\<open>nextEvent.action()\<close>).\<close>

fun call_action ::
  "(MachineId \<Rightarrow> nat \<Rightarrow> rat) \<Rightarrow> Action \<Rightarrow> ManufacturingSystem \<Rightarrow> ManufacturingSystem" where
  "call_action uniform StartShiftLambda s = startShift uniform s"
| "call_action uniform EndShiftLambda s = endShift s"
| "call_action uniform (RetryLambda this productType shiftEndTime') s =
     Machine_startProcessing uniform this productType shiftEndTime' s"
| "call_action uniform (CompleteLambda this productType) s =
     (let s1 = machine_update this (\<lambda>m. m\<lparr>isBusy := False\<rparr>) s;
          s2 = print (MachineFinished (name (machine this s1)) productType
                        (Simulation_getCurrentTime s1)) s1
      in call_onProcessComplete uniform (onProcessComplete (machine this s2)) productType s2)"

text \<open>
  The constructor.  \<open>shiftEndTime\<close> has no initialiser in the source; its first value
  is the parameter \<open>uninitialised\<close>.
\<close>

definition ManufacturingSystem_new :: "int \<Rightarrow> int \<Rightarrow> rat \<Rightarrow> ManufacturingSystem" where
  "ManufacturingSystem_new shiftDuration' shiftCount' uninitialised =
     \<lparr>currentTime = 0, eventQueue = [],
      rawMaterialHandler = Machine_new ''Raw Material Handler''
        (unordered_map [(''ProductA'', 2), (''ProductB'', 3)])
        (unordered_map [(''ProductA'', 1), (''ProductB'', 3 / 2)])
        CallStartMachining (1 / 10) 1,
      machining = Machine_new ''Machining''
        (unordered_map [(''ProductA'', 3), (''ProductB'', 4)])
        (unordered_map [(''ProductA'', 1), (''ProductB'', 2)])
        CallStartAssembly (1 / 10) (3 / 2),
      assembly = Machine_new ''Assembly''
        (unordered_map [(''ProductA'', 4), (''ProductB'', 5)])
        (unordered_map [(''ProductA'', 3 / 2), (''ProductB'', 5 / 2)])
        CallStartQualityControl (1 / 10) 2,
      qualityControl = Machine_new ''Quality Control''
        (unordered_map [(''ProductA'', 1), (''ProductB'', 3 / 2)])
        (unordered_map [(''ProductA'', 1 / 2), (''ProductB'', 1)])
        CallStartPackaging (1 / 20) (1 / 2),
      packaging = Machine_new ''Packaging''
        (unordered_map [(''ProductA'', 2), (''ProductB'', 5 / 2)])
        (unordered_map [(''ProductA'', 1 / 2), (''ProductB'', 1)])
        CallFinishProduct (1 / 20) (1 / 2),
      productsCompleted = 0, shiftDuration = shiftDuration', currentShift = 0,
      shiftCount = shiftCount', shiftEndTime = uninitialised,
      productQueue = concat (replicate 100 [''ProductA'', ''ProductB'']),
      cout = []\<rparr>"

text \<open>\<open>ManufacturingSystem::run\<close>.\<close>

definition ManufacturingSystem_run_start :: "ManufacturingSystem \<Rightarrow> ManufacturingSystem" where
  "ManufacturingSystem_run_start s = Simulation_scheduleEvent 0 StartShiftLambda s"

definition ManufacturingSystem_run ::
  "(MachineId \<Rightarrow> nat \<Rightarrow> rat) \<Rightarrow> ManufacturingSystem \<Rightarrow> ManufacturingSystem option" where
  "ManufacturingSystem_run uniform s =
     Simulation_run (call_action uniform) (ManufacturingSystem_run_start s)"

section \<open>Properties of states\<close>

text \<open>
  The heap order that \<open>std::push_heap\<close> and \<open>std::pop_heap\<close> maintain for the
  comparison \<open>std::greater<Event>\<close>: among the first \<open>n\<close> elements, no element has a
  timestamp smaller than the element at its parent index.
\<close>

definition heap_upto :: "nat \<Rightarrow> 'a Event list \<Rightarrow> bool" where
  "heap_upto n xs = (\<forall>i\<in>{1..<n}. time (xs ! ((i - 1) div 2)) \<le> time (xs ! i))"

definition is_heap :: "'a Event list \<Rightarrow> bool" where
  "is_heap xs = heap_upto (length xs) xs"

text \<open>
  The condition of the first \<open>if\<close> of \<open>Machine::startProcessing\<close>, and the condition of
  its second \<open>if\<close> for the sample that the machine draws next.
\<close>

definition rejects :: "MachineId \<Rightarrow> string \<Rightarrow> rat \<Rightarrow> ManufacturingSystem \<Rightarrow> bool" where
  "rejects this productType shiftEndTime' s =
     (isBusy (machine this s)
      \<or> currentTime s + processTimes (machine this s) productType > shiftEndTime')"

definition breaks_down ::
  "(MachineId \<Rightarrow> nat \<Rightarrow> rat) \<Rightarrow> MachineId \<Rightarrow> ManufacturingSystem \<Rightarrow> bool" where
  "breaks_down uniform this s =
     (uniform this (generator (machine this s)) < breakdownProbability (machine this s))"

section \<open>Inputs used in examples\<close>

text \<open>
  Two sample sequences: every sample is \<open>0.5\<close>, so that no machine breaks down; and
  the same except that the first sample of one machine is \<open>0\<close>, so that this machine
  breaks down the first time it starts.
\<close>

definition steady :: "MachineId \<Rightarrow> nat \<Rightarrow> rat" where
  "steady this n = 1 / 2"

definition first_draw_breaks :: "MachineId \<Rightarrow> MachineId \<Rightarrow> nat \<Rightarrow> rat" where
  "first_draw_breaks broken this n = (if this = broken \<and> n = 0 then 0 else 1 / 2)"

text \<open>A system in which the breakdown probability of every machine is set to 0.\<close>

definition no_breakdowns :: "ManufacturingSystem \<Rightarrow> ManufacturingSystem" where
  "no_breakdowns s =
     s\<lparr>rawMaterialHandler := (rawMaterialHandler s)\<lparr>breakdownProbability := 0\<rparr>,
       machining := (machining s)\<lparr>breakdownProbability := 0\<rparr>,
       assembly := (assembly s)\<lparr>breakdownProbability := 0\<rparr>,
       qualityControl := (qualityControl s)\<lparr>breakdownProbability := 0\<rparr>,
       packaging := (packaging s)\<lparr>breakdownProbability := 0\<rparr>\<rparr>"

text \<open>
  A client of \<open>Simulation\<close> whose scheduled actions are numbered and append their
  number to a list when they are called, so that the order of the calls can be read.
\<close>

record Trace = "nat Simulation" +
  executed :: "nat list"

definition Trace_call :: "nat \<Rightarrow> Trace \<Rightarrow> Trace" where
  "Trace_call label s = s\<lparr>executed := executed s @ [label]\<rparr>"

definition Trace_new :: Trace where
  "Trace_new = \<lparr>currentTime = 0, eventQueue = [], executed = []\<rparr>"


section \<open>Invariants of the run\<close>

text \<open>
  The durations of the machines and of the shift are not negative.  This holds for the
  constants of the constructor and for a shift duration that is not negative.
\<close>

definition machine_ok :: "Machine \<Rightarrow> bool" where
  "machine_ok m =
     (0 \<le> maintenanceTime m \<and> (\<forall>p. 0 \<le> processTimes m p + setupTimes m p))"

definition config_ok :: "ManufacturingSystem \<Rightarrow> bool" where
  "config_ok s = ((\<forall>i. machine_ok (machine i s)) \<and> 0 \<le> shiftDuration s)"

text \<open>
  No pending event lies in the past: the queue is in heap order and every pending
  timestamp is at least the current time.
\<close>

definition causal :: "ManufacturingSystem \<Rightarrow> bool" where
  "causal s =
     (is_heap (eventQueue s) \<and> (\<forall>e\<in>set (eventQueue s). currentTime s \<le> time e)
      \<and> config_ok s)"

text \<open>The number of pending events whose action satisfies \<open>P\<close>, and three kinds of actions.\<close>

definition count_actions :: "('a \<Rightarrow> bool) \<Rightarrow> 'a Event list \<Rightarrow> nat" where
  "count_actions P q = length (filter (\<lambda>e. P (action e)) q)"

fun is_shift :: "Action \<Rightarrow> bool" where
  "is_shift StartShiftLambda = True"
| "is_shift EndShiftLambda = True"
| "is_shift (RetryLambda this p d) = False"
| "is_shift (CompleteLambda this p) = False"

fun is_start_shift :: "Action \<Rightarrow> bool" where
  "is_start_shift StartShiftLambda = True"
| "is_start_shift EndShiftLambda = False"
| "is_start_shift (RetryLambda this p d) = False"
| "is_start_shift (CompleteLambda this p) = False"

fun in_flight :: "Action \<Rightarrow> bool" where
  "in_flight StartShiftLambda = False"
| "in_flight EndShiftLambda = False"
| "in_flight (RetryLambda this p d) = True"
| "in_flight (CompleteLambda this p) = True"

text \<open>
  At most one \<open>startShift\<close> or \<open>endShift\<close> event is pending; \<open>currentShift\<close> is between
  0 and the greater of 1 and \<open>shiftCount\<close>, and below it while a \<open>startShift\<close> event is
  pending.
\<close>

definition shift_counter_ok :: "ManufacturingSystem \<Rightarrow> bool" where
  "shift_counter_ok s =
     (is_heap (eventQueue s)
      \<and> count_actions is_shift (eventQueue s) \<le> 1
      \<and> 0 \<le> currentShift s
      \<and> currentShift s \<le> max 1 (shiftCount s)
      \<and> (0 < count_actions is_start_shift (eventQueue s)
           \<longrightarrow> currentShift s < max 1 (shiftCount s)))"


text \<open>
  The units admitted to the first stage.  \<open>Machine::startProcessing\<close> draws exactly one
  sample each time it accepts a unit and never otherwise, and the constructor starts the
  generator afresh, so \<open>generator\<close> of \<open>rawMaterialHandler\<close> is the number of units the
  first stage has accepted.  \<open>k\<close> units have been taken from the front of the original
  product queue; the units accepted are at most \<open>k\<close>, and the products completed and the
  units that a pending retry or completion event carries are together at most the units
  accepted.
\<close>

definition admitted_ok :: "string list \<Rightarrow> ManufacturingSystem \<Rightarrow> bool" where
  "admitted_ok backlog s =
     (0 \<le> productsCompleted s
      \<and> (\<exists>k\<le>length backlog. productQueue s = drop k backlog
            \<and> productsCompleted s + int (count_actions in_flight (eventQueue s))
                  \<le> int (generator (rawMaterialHandler s))
            \<and> generator (rawMaterialHandler s) \<le> k))"

text \<open>
  The \<open>onProcessComplete\<close> closures as the constructor wires them: each machine hands the
  product to the next one, the last to \<open>finishProduct\<close>.
\<close>

definition pipeline_wired :: "ManufacturingSystem \<Rightarrow> bool" where
  "pipeline_wired s =
     (onProcessComplete (rawMaterialHandler s) = CallStartMachining
      \<and> onProcessComplete (machining s) = CallStartAssembly
      \<and> onProcessComplete (assembly s) = CallStartQualityControl
      \<and> onProcessComplete (qualityControl s) = CallStartPackaging
      \<and> onProcessComplete (packaging s) = CallFinishProduct)"

text \<open>
  The events of a machine are its retry and completion closures.  At most one of them is
  pending, and then the machine is busy.
\<close>

fun of_machine :: "MachineId \<Rightarrow> Action \<Rightarrow> bool" where
  "of_machine i StartShiftLambda = False"
| "of_machine i EndShiftLambda = False"
| "of_machine i (RetryLambda this p d) = (this = i)"
| "of_machine i (CompleteLambda this p) = (this = i)"

definition occupied_ok :: "ManufacturingSystem \<Rightarrow> bool" where
  "occupied_ok s =
     (\<forall>i. count_actions (of_machine i) (eventQueue s) = 0
          \<or> (isBusy (machine i s) \<and> count_actions (of_machine i) (eventQueue s) = 1))"

text \<open>
  A bound on the work that remains: every pending event counts with a weight that exceeds
  the weight of what calling it can schedule, and every unit of the product queue counts
  5, the weight of a completion of the first machine.  The weight of a shift event counts
  the shifts that remain.
\<close>

fun stage_weight :: "MachineId \<Rightarrow> nat" where
  "stage_weight RawMaterialHandler = 5"
| "stage_weight Machining = 4"
| "stage_weight Assembly = 3"
| "stage_weight QualityControl = 2"
| "stage_weight Packaging = 1"

fun weight :: "int \<Rightarrow> int \<Rightarrow> Action \<Rightarrow> nat" where
  "weight cs sc StartShiftLambda = 2 * nat (sc - cs - 1) + 2"
| "weight cs sc EndShiftLambda = 2 * nat (sc - cs) + 1"
| "weight cs sc (RetryLambda this p d) = 1"
| "weight cs sc (CompleteLambda this p) = stage_weight this"

definition pending_weight :: "int \<Rightarrow> int \<Rightarrow> Action Event list \<Rightarrow> nat" where
  "pending_weight cs sc q = sum_list (map (\<lambda>e. weight cs sc (action e)) q)"

definition potential :: "ManufacturingSystem \<Rightarrow> nat" where
  "potential s =
     pending_weight (currentShift s) (shiftCount s) (eventQueue s) + 5 * length (productQueue s)"

definition run_inv :: "ManufacturingSystem \<Rightarrow> bool" where
  "run_inv s =
     (is_heap (eventQueue s) \<and> pipeline_wired s
      \<and> count_actions is_shift (eventQueue s) \<le> 1 \<and> occupied_ok s)"

text \<open>
  Every breakdown probability is 0; and the samples are not negative, as the samples of
  \<open>std::uniform_real_distribution<double>(0.0, 1.0)\<close> are.
\<close>

definition never_breaks :: "ManufacturingSystem \<Rightarrow> bool" where
  "never_breaks s = (\<forall>i. breakdownProbability (machine i s) = 0)"

definition samples_nonneg :: "(MachineId \<Rightarrow> nat \<Rightarrow> rat) \<Rightarrow> bool" where
  "samples_nonneg uniform = (\<forall>i n. 0 \<le> uniform i n)"

section \<open>The binary heap of the event queue\<close>

lemma heap_uptoD:
  "heap_upto n xs \<Longrightarrow> 0 < i \<Longrightarrow> i < n \<Longrightarrow> time (xs ! ((i - 1) div 2)) \<le> time (xs ! i)"
  by (simp add: heap_upto_def)

lemma heap_uptoI:
  "(\<And>i. 0 < i \<Longrightarrow> i < n \<Longrightarrow> time (xs ! ((i - 1) div 2)) \<le> time (xs ! i)) \<Longrightarrow> heap_upto n xs"
  by (auto simp add: heap_upto_def)

lemma heap_upto_root_min:
  "heap_upto n xs \<Longrightarrow> i < n \<Longrightarrow> time (xs ! 0) \<le> time (xs ! i)"
proof (induction i rule: less_induct)
  case (less i)
  show ?case
  proof (cases "i = 0")
    case True
    then show ?thesis by simp
  next
    case False
    then have "(i - 1) div 2 < i" by simp
    moreover from this less.prems have "(i - 1) div 2 < n" by simp
    ultimately have "time (xs ! 0) \<le> time (xs ! ((i - 1) div 2))"
      using less.IH less.prems(1) by blast
    also have "\<dots> \<le> time (xs ! i)"
      using heap_uptoD [OF less.prems(1) _ less.prems(2)] False by simp
    finally show ?thesis .
  qed
qed

lemma heap_upto_update:
  assumes heap: "heap_upto n ys" and h: "h < n" and n: "n \<le> length ys"
    and up: "0 < h \<Longrightarrow> time (ys ! ((h - 1) div 2)) \<le> time v"
    and down: "\<And>c. 0 < c \<Longrightarrow> c < n \<Longrightarrow> (c - 1) div 2 = h \<Longrightarrow> time v \<le> time (ys ! c)"
  shows "heap_upto n (ys[h := v])"
proof (rule heap_uptoI)
  fix i assume i: "0 < i" "i < n"
  then have neq: "(i - 1) div 2 \<noteq> i" by simp
  show "time (ys[h := v] ! ((i - 1) div 2)) \<le> time (ys[h := v] ! i)"
  proof (cases "i = h")
    case True
    with i neq n up show ?thesis by simp
  next
    case False
    show ?thesis
    proof (cases "(i - 1) div 2 = h")
      case True
      with False i n down [of i] show ?thesis by simp
    next
      case par: False
      with False heap_uptoD [OF heap i] show ?thesis by simp
    qed
  qed
qed

lemma mset_move_hole:
  assumes "i < length xs" "j < length xs" "i \<noteq> j"
  shows "mset (xs[i := xs ! j, j := v]) = mset (xs[i := v])"
proof -
  let ?ls = "xs[i := v]"
  have "mset (?ls[j := ?ls ! i, i := ?ls ! j]) = mset ?ls"
    by (rule mset_swap) (use assms in simp_all)
  moreover have "?ls[j := ?ls ! i, i := ?ls ! j] = xs[i := xs ! j, j := v]"
    using assms by (intro nth_equalityI) (auto simp add: nth_list_update)
  ultimately show ?thesis by simp
qed

lemma length_std_push_heap_loop [simp]:
  "length (std_push_heap_loop xs h t v) = length xs"
proof (induction xs h t v rule: std_push_heap_loop.induct)
  case (1 first holeIndex topIndex v)
  show ?case
    by (subst std_push_heap_loop.simps) (simp add: 1 Let_def)
qed

lemma mset_std_push_heap_loop:
  "h < length xs \<Longrightarrow> mset (std_push_heap_loop xs h t v) = mset (xs[h := v])"
proof (induction xs h t v rule: std_push_heap_loop.induct)
  case (1 first holeIndex topIndex v)
  let ?p = "(holeIndex - 1) div 2"
  show ?case
  proof (cases "holeIndex > topIndex \<and> Event_gt (first ! ?p) v")
    case True
    then have lt: "?p < holeIndex" by auto
    with "1.prems" have "?p < length first" by simp
    with True "1.IH" [OF refl True]
    have "mset (std_push_heap_loop (first[holeIndex := first ! ?p]) ?p topIndex v)
          = mset (first[holeIndex := first ! ?p, ?p := v])"
      by simp
    also have "\<dots> = mset (first[holeIndex := v])"
      using mset_move_hole [of holeIndex first ?p v] "1.prems" lt by simp
    finally show ?thesis
      using True by (subst std_push_heap_loop.simps) (simp add: Let_def)
  next
    case False
    then show ?thesis
      by (subst std_push_heap_loop.simps) (auto simp add: Let_def)
  qed
qed

lemma nth_std_push_heap_loop:
  "h < j \<Longrightarrow> std_push_heap_loop xs h t v ! j = xs ! j"
proof (induction xs h t v rule: std_push_heap_loop.induct)
  case (1 first holeIndex topIndex v)
  let ?p = "(holeIndex - 1) div 2"
  show ?case
  proof (cases "holeIndex > topIndex \<and> Event_gt (first ! ?p) v")
    case True
    then have lt: "?p < holeIndex" by auto
    with "1.prems" have "?p < j" by simp
    with True "1.IH" [OF refl True] "1.prems" show ?thesis
      by (subst std_push_heap_loop.simps) (simp add: Let_def)
  next
    case False
    with "1.prems" show ?thesis
      by (subst std_push_heap_loop.simps) (auto simp add: Let_def)
  qed
qed

lemma heap_std_push_heap_loop:
  assumes "h < n" "n \<le> length xs"
    and "heap_upto n (xs[h := xs ! ((h - 1) div 2)])"
    and "\<And>c. 0 < c \<Longrightarrow> c < n \<Longrightarrow> (c - 1) div 2 = h \<Longrightarrow> time v \<le> time (xs ! c)"
  shows "heap_upto n (std_push_heap_loop xs h 0 v)"
  using assms
proof (induction xs h "0::nat" v rule: std_push_heap_loop.induct)
  case (1 first holeIndex v)
  let ?p = "(holeIndex - 1) div 2"
  let ?ys = "first[holeIndex := first ! ?p]"
  note heap = "1.prems"(3)
  have ys_nth: "\<And>k. k \<noteq> holeIndex \<Longrightarrow> ?ys ! k = first ! k" by simp
  show ?case
  proof (cases "holeIndex > 0 \<and> Event_gt (first ! ?p) v")
    case True
    then have lt: "?p < holeIndex" by auto
    have pn: "?p < n" using lt "1.prems"(1) by simp
    have a: "heap_upto n (?ys[?p := ?ys ! ((?p - 1) div 2)])"
    proof (rule heap_upto_update [OF heap pn])
      show "n \<le> length ?ys" using "1.prems"(2) by simp
    next
      fix c assume c: "0 < c" "c < n" "(c - 1) div 2 = ?p"
      have "time (?ys ! ((?p - 1) div 2)) \<le> time (?ys ! ?p)"
      proof (cases "?p = 0")
        case True then show ?thesis by simp
      next
        case False
        then have "0 < ?p" by simp
        from heap_uptoD [OF heap this pn] show ?thesis .
      qed
      also have "\<dots> \<le> time (?ys ! c)"
        using heap_uptoD [OF heap c(1) c(2)] c(3) by simp
      finally show "time (?ys ! ((?p - 1) div 2)) \<le> time (?ys ! c)" .
    qed simp
    have b: "time v \<le> time (?ys ! c)" if c: "0 < c" "c < n" "(c - 1) div 2 = ?p" for c
    proof -
      have "time v \<le> time (first ! ?p)" using True by (simp add: Event_gt_def)
      also have "\<dots> = time (?ys ! ?p)" using lt by simp
      also have "\<dots> \<le> time (?ys ! c)"
        using heap_uptoD [OF heap c(1) c(2)] c(3) by simp
      finally show ?thesis .
    qed
    have "heap_upto n (std_push_heap_loop ?ys ?p 0 v)"
      using "1.hyps" [OF refl True pn _ a b] "1.prems"(2) by simp
    then show ?thesis
      using True by (subst std_push_heap_loop.simps) (simp add: Let_def)
  next
    case False
    have "heap_upto n (?ys[holeIndex := v])"
    proof (rule heap_upto_update [OF heap "1.prems"(1)])
      show "n \<le> length ?ys" using "1.prems"(2) by simp
    next
      assume "0 < holeIndex"
      then have "?p \<noteq> holeIndex" by simp
      with False \<open>0 < holeIndex\<close> show "time (?ys ! ?p) \<le> time v"
        by (simp add: Event_gt_def)
    next
      fix c assume c: "0 < c" "c < n" "(c - 1) div 2 = holeIndex"
      then have "c \<noteq> holeIndex" by auto
      with "1.prems"(4) [OF c] show "time v \<le> time (?ys ! c)" by simp
    qed
    then show ?thesis
      using False by (subst std_push_heap_loop.simps) (auto simp add: Let_def)
  qed
qed

lemma parent_less: "0 < (i::nat) \<Longrightarrow> (i - 1) div 2 < i"
  by arith

lemma child_cases:
  "0 < (c::nat) \<Longrightarrow> (c - 1) div 2 = h \<Longrightarrow> c = 2 * (h + 1) - 1 \<or> c = 2 * (h + 1)"
  by (cases c) auto

lemma std_adjust_heap_loop_props:
  assumes "std_adjust_heap_loop xs h c len = (xs', h', c')"
    and "h < len" "len \<le> length xs" "heap_upto len xs" "c = h"
  shows "c' = h' \<and> length xs' = length xs \<and> heap_upto len xs' \<and> h' < len
         \<and> \<not> h' < (len - 1) div 2
         \<and> (\<forall>v. mset (xs'[h' := v]) = mset (xs[h := v]))
         \<and> (\<forall>j\<ge>len. xs' ! j = xs ! j)"
  using assms
proof (induction xs h c len rule: std_adjust_heap_loop.induct)
  case (1 first holeIndex secondChild len)
  note eq = \<open>secondChild = holeIndex\<close>
  note [simp] = eq
  note heap = "1.prems"(4)
  let ?sc = "2 * (holeIndex + 1)"
  let ?sc' = "if Event_gt (first ! ?sc) (first ! (?sc - 1)) then ?sc - 1 else ?sc"
  let ?ys = "first[holeIndex := first ! ?sc']"
  show ?case
  proof (cases "holeIndex < (len - 1) div 2")
    case False
    with "1.prems" show ?thesis
      by (subst (asm) std_adjust_heap_loop.simps) auto
  next
    case True
    then have sc_lt: "?sc < len" by auto
    then have sc'_lt: "?sc' < len" by auto
    have sc'_gt: "holeIndex < ?sc'" by auto
    have sc'_par: "(?sc' - 1) div 2 = holeIndex" by auto
    have "std_adjust_heap_loop first holeIndex secondChild len
          = std_adjust_heap_loop ?ys ?sc' ?sc' len"
      using True by (subst std_adjust_heap_loop.simps) (simp add: Let_def)
    with "1.prems"(1) have rec: "std_adjust_heap_loop ?ys ?sc' ?sc' len = (xs', h', c')"
      by simp
    have least: "time (first ! ?sc') \<le> time (first ! c)"
      if "0 < c" "(c - 1) div 2 = holeIndex" for c
      using child_cases [OF that] by (auto simp add: Event_gt_def)
    have heap': "heap_upto len ?ys"
    proof (rule heap_upto_update [OF heap "1.prems"(2) "1.prems"(3)])
      assume pos: "0 < holeIndex"
      have "time (first ! ((holeIndex - 1) div 2)) \<le> time (first ! holeIndex)"
        using heap_uptoD [OF heap pos "1.prems"(2)] .
      also have "\<dots> \<le> time (first ! ?sc')"
        using heap_uptoD [OF heap _ sc'_lt] sc'_par sc'_gt by (metis gr_implies_not0 neq0_conv)
      finally show "time (first ! ((holeIndex - 1) div 2)) \<le> time (first ! ?sc')" .
    next
      fix c assume "0 < c" "c < len" "(c - 1) div 2 = holeIndex"
      then show "time (first ! ?sc') \<le> time (first ! c)" using least by blast
    qed
    have IH: "c' = h' \<and> length xs' = length ?ys \<and> heap_upto len xs' \<and> h' < len
         \<and> \<not> h' < (len - 1) div 2
         \<and> (\<forall>v. mset (xs'[h' := v]) = mset (?ys[?sc' := v]))
         \<and> (\<forall>j\<ge>len. xs' ! j = ?ys ! j)"
    proof -
      have len': "len \<le> length ?ys" using "1.prems"(3) by simp
      from "1.IH" [unfolded eq, OF True refl refl rec sc'_lt len' heap' refl]
      show ?thesis .
    qed
    have m: "mset (?ys[?sc' := v]) = mset (first[holeIndex := v])" for v
      using mset_move_hole [of holeIndex first ?sc' v] sc'_lt sc'_gt "1.prems"(2,3)
      by simp
    have "xs' ! j = first ! j" if "j \<ge> len" for j
      using IH that "1.prems"(2) by simp
    with IH m show ?thesis by simp
  qed
qed

lemma heap_upto_mono: "heap_upto n xs \<Longrightarrow> m \<le> n \<Longrightarrow> heap_upto m xs"
  by (auto simp add: heap_upto_def)

lemma heap_upto_cong:
  "heap_upto n xs \<Longrightarrow> (\<And>i. i < n \<Longrightarrow> ys ! i = xs ! i) \<Longrightarrow> heap_upto n ys"
  by (rule heap_uptoI) (use heap_uptoD [of n xs] in \<open>simp add: less_imp_diff_less\<close>)

lemma priority_queue_top_min:
  assumes "is_heap c" "e \<in> set c"
  shows "time (priority_queue_top c) \<le> time e"
proof -
  from assms(2) obtain i where i: "i < length c" "c ! i = e"
    by (auto simp add: in_set_conv_nth)
  then have "c \<noteq> []" by auto
  then have "priority_queue_top c = c ! 0"
    by (simp add: priority_queue_top_def hd_conv_nth)
  with heap_upto_root_min [of "length c" c i] assms(1) i show ?thesis
    by (simp add: is_heap_def)
qed

lemma length_priority_queue_push [simp]:
  "length (priority_queue_push c x) = Suc (length c)"
  by (simp add: priority_queue_push_def std_push_heap_def)

lemma mset_priority_queue_push [simp]:
  "mset (priority_queue_push c x) = add_mset x (mset c)"
  by (simp add: priority_queue_push_def std_push_heap_def mset_std_push_heap_loop)

lemma is_heap_priority_queue_push:
  assumes "is_heap c"
  shows "is_heap (priority_queue_push c x)"
proof -
  let ?n = "length c"
  let ?xs = "c @ [x]"
  have "heap_upto (Suc ?n) (?xs[?n := ?xs ! ((?n - 1) div 2)])"
  proof (rule heap_uptoI)
    fix i assume i: "0 < i" "i < Suc ?n"
    show "time (?xs[?n := ?xs ! ((?n - 1) div 2)] ! ((i - 1) div 2))
          \<le> time (?xs[?n := ?xs ! ((?n - 1) div 2)] ! i)"
    proof (cases "i = ?n")
      case True
      with i have "0 < ?n" by simp
      then have "(?n - 1) div 2 < ?n" by (rule parent_less)
      with True show ?thesis by (simp add: nth_append)
    next
      case False
      with i have "i < ?n" by simp
      moreover from parent_less [OF i(1)] this have "(i - 1) div 2 < ?n" by simp
      ultimately show ?thesis
        using i(1) heap_uptoD [of ?n c i] assms by (simp add: is_heap_def nth_append)
    qed
  qed
  moreover have "time x \<le> time (?xs ! k)" if "0 < k" "k < Suc ?n" "(k - 1) div 2 = ?n" for k
    using that by auto
  ultimately have "heap_upto (Suc ?n) (std_push_heap_loop ?xs ?n 0 x)"
    by (intro heap_std_push_heap_loop) simp_all
  then show ?thesis
    by (simp add: is_heap_def priority_queue_push_def std_push_heap_def)
qed

lemma std_adjust_heap_props:
  assumes "0 < len" "len \<le> length xs" "heap_upto len xs"
  shows "length (std_adjust_heap xs 0 len v) = length xs
         \<and> heap_upto len (std_adjust_heap xs 0 len v)
         \<and> mset (std_adjust_heap xs 0 len v) = mset (xs[0 := v])
         \<and> (\<forall>j\<ge>len. std_adjust_heap xs 0 len v ! j = xs ! j)"
proof -
  obtain xs1 h1 c1 where loop: "std_adjust_heap_loop xs 0 0 len = (xs1, h1, c1)"
    by (cases "std_adjust_heap_loop xs 0 0 len") auto
  from std_adjust_heap_loop_props [OF loop assms refl]
  have c1: "c1 = h1" and len1: "length xs1 = length xs" and heap1: "heap_upto len xs1"
    and h1: "h1 < len" and leaf1: "\<not> h1 < (len - 1) div 2"
    and mset1: "\<And>v. mset (xs1[h1 := v]) = mset (xs[0 := v])"
    and nth1: "\<And>j. j \<ge> len \<Longrightarrow> xs1 ! j = xs ! j"
    by auto
  note loop = loop [unfolded c1]
  show ?thesis
  proof (cases "len mod 2 = 0 \<and> len \<noteq> 0 \<and> h1 = (len - 2) div 2")
    case True
    let ?h2 = "2 * (h1 + 1) - 1"
    let ?xs2 = "xs1[h1 := xs1 ! ?h2]"
    have res: "std_adjust_heap xs 0 len v = std_push_heap_loop ?xs2 ?h2 0 v"
      using True loop by (simp add: std_adjust_heap_def Let_def)
    from True have h2: "?h2 = len - 1" "h1 < ?h2" "(?h2 - 1) div 2 = h1" "?h2 < len"
      by (auto simp add: mod2_eq_if split: if_splits)
    have heap2: "heap_upto len ?xs2"
    proof (rule heap_upto_update [OF heap1 h1])
      show "len \<le> length xs1" using len1 assms(2) by simp
    next
      assume "0 < h1"
      from heap_uptoD [OF heap1 this h1]
      have "time (xs1 ! ((h1 - 1) div 2)) \<le> time (xs1 ! h1)" .
      also have "\<dots> \<le> time (xs1 ! ?h2)"
        using heap_uptoD [OF heap1 _ h2(4)] h2 by simp
      finally show "time (xs1 ! ((h1 - 1) div 2)) \<le> time (xs1 ! ?h2)" .
    next
      fix c assume c: "0 < c" "c < len" "(c - 1) div 2 = h1"
      with child_cases [OF c(1) c(3)] h2 have "c = ?h2" by auto
      then show "time (xs1 ! ?h2) \<le> time (xs1 ! c)" by simp
    qed
    have pre: "heap_upto len (?xs2[?h2 := ?xs2 ! ((?h2 - 1) div 2)])"
    proof (rule heap_upto_update [OF heap2 h2(4)])
      show "len \<le> length ?xs2" using len1 assms(2) by simp
    next
      show "time (?xs2 ! ((?h2 - 1) div 2)) \<le> time (?xs2 ! ((?h2 - 1) div 2))" by simp
    next
      fix c assume c: "0 < c" "c < len" "(c - 1) div 2 = ?h2"
      with h2 show "time (?xs2 ! ((?h2 - 1) div 2)) \<le> time (?xs2 ! c)" by auto
    qed
    have nochild: "time v \<le> time (?xs2 ! c)" if "0 < c" "c < len" "(c - 1) div 2 = ?h2" for c
      using that h2 by auto
    have "heap_upto len (std_push_heap_loop ?xs2 ?h2 0 v)"
      using heap_std_push_heap_loop [OF h2(4) _ pre nochild] len1 assms(2) by simp
    moreover have "mset (std_push_heap_loop ?xs2 ?h2 0 v) = mset (xs[0 := v])"
    proof -
      have "mset (std_push_heap_loop ?xs2 ?h2 0 v) = mset (?xs2[?h2 := v])"
        using h2(4) len1 assms(2) by (intro mset_std_push_heap_loop) simp
      also have "\<dots> = mset (xs1[h1 := v])"
        using mset_move_hole [of h1 xs1 ?h2 v] h1 h2 len1 assms(2) by simp
      finally show ?thesis by (simp add: mset1)
    qed
    moreover have "std_push_heap_loop ?xs2 ?h2 0 v ! j = xs ! j" if "j \<ge> len" for j
      using that h2 h1 nth1 by (simp add: nth_std_push_heap_loop)
    ultimately show ?thesis by (simp add: res len1)
  next
    case False
    have res: "std_adjust_heap xs 0 len v = std_push_heap_loop xs1 h1 0 v"
      using False loop by (auto simp add: std_adjust_heap_def Let_def)
    from False leaf1 h1 have leaf: "len \<le> 2 * h1 + 1"
      by (auto simp add: mod2_eq_if split: if_splits) presburger+
    have pre: "heap_upto len (xs1[h1 := xs1 ! ((h1 - 1) div 2)])"
    proof (rule heap_upto_update [OF heap1 h1])
      show "len \<le> length xs1" using len1 assms(2) by simp
    next
      show "time (xs1 ! ((h1 - 1) div 2)) \<le> time (xs1 ! ((h1 - 1) div 2))" by simp
    next
      fix c assume c: "0 < c" "c < len" "(c - 1) div 2 = h1"
      with leaf show "time (xs1 ! ((h1 - 1) div 2)) \<le> time (xs1 ! c)" by auto
    qed
    have nochild: "time v \<le> time (xs1 ! c)" if "0 < c" "c < len" "(c - 1) div 2 = h1" for c
      using that leaf by auto
    have "heap_upto len (std_push_heap_loop xs1 h1 0 v)"
      using heap_std_push_heap_loop [OF h1 _ pre nochild] len1 assms(2) by simp
    moreover have "mset (std_push_heap_loop xs1 h1 0 v) = mset (xs[0 := v])"
      using mset_std_push_heap_loop [of h1 xs1 0 v] h1 len1 assms(2) mset1 by simp
    moreover have "std_push_heap_loop xs1 h1 0 v ! j = xs ! j" if "j \<ge> len" for j
      using that h1 nth1 by (simp add: nth_std_push_heap_loop)
    ultimately show ?thesis by (simp add: res len1)
  qed
qed

lemma priority_queue_pop_props:
  assumes "c \<noteq> []" "is_heap c"
  shows "is_heap (priority_queue_pop c)
         \<and> add_mset (priority_queue_top c) (mset (priority_queue_pop c)) = mset c"
proof (cases "length c > 1")
  case False
  with assms(1) obtain x where "c = [x]"
    by (cases c) auto
  then show ?thesis
    by (simp add: priority_queue_pop_def std_pop_heap_def priority_queue_top_def is_heap_def
        heap_upto_def)
next
  case True
  let ?n = "length c - 1"
  let ?xs = "c[?n := c ! 0]"
  let ?r = "std_adjust_heap ?xs 0 ?n (c ! ?n)"
  have pop: "priority_queue_pop c = butlast ?r"
    using True by (simp add: priority_queue_pop_def std_pop_heap_def Let_def)
  have "heap_upto ?n c"
    using assms(2) by (auto simp add: is_heap_def intro: heap_upto_mono)
  then have "heap_upto ?n ?xs"
    by (rule heap_upto_cong) simp
  with std_adjust_heap_props [of ?n ?xs "c ! ?n"] True
  have len: "length ?r = length c" and heap: "heap_upto ?n ?r"
    and mset_r: "mset ?r = mset (?xs[0 := c ! ?n])" and last_r: "?r ! ?n = ?xs ! ?n"
    by simp_all
  have "mset (?xs[0 := c ! ?n]) = mset c"
    using mset_swap [of 0 c ?n] True assms(1) by simp
  with mset_r have mset_c: "mset ?r = mset c" by simp
  from len True have "?r \<noteq> []" by auto
  then have "?r = butlast ?r @ [last ?r]" by simp
  moreover have "last ?r = c ! 0"
    using last_r len True \<open>?r \<noteq> []\<close> by (simp add: last_conv_nth)
  ultimately have "mset ?r = add_mset (c ! 0) (mset (butlast ?r))"
    by (metis mset.simps(2) mset_append union_mset_add_mset_right add.right_neutral mset.simps(1))
  with mset_c have m: "add_mset (priority_queue_top c) (mset (priority_queue_pop c)) = mset c"
    using assms(1) by (simp add: pop priority_queue_top_def hd_conv_nth)
  have "heap_upto ?n (butlast ?r)"
    using heap by (rule heap_upto_cong) (use len in \<open>simp add: nth_butlast\<close>)
  then have "is_heap (priority_queue_pop c)"
    using len by (simp add: is_heap_def pop)
  with m show ?thesis by simp
qed

section \<open>What each operation changes\<close>

lemma scheduleEvent_fields [simp]:
  "eventQueue (Simulation_scheduleEvent t a s)
     = priority_queue_push (eventQueue s) \<lparr>time = t, action = a\<rparr>"
  "currentTime (Simulation_scheduleEvent t a s) = currentTime s"
  "Simulation.more (Simulation_scheduleEvent t a s) = Simulation.more s"
  by (simp_all add: Simulation_scheduleEvent_def)

lemma scheduleEvent_system_fields [simp]:
  "rawMaterialHandler (Simulation_scheduleEvent t a s) = rawMaterialHandler s"
  "machining (Simulation_scheduleEvent t a s) = machining s"
  "assembly (Simulation_scheduleEvent t a s) = assembly s"
  "qualityControl (Simulation_scheduleEvent t a s) = qualityControl s"
  "packaging (Simulation_scheduleEvent t a s) = packaging s"
  "productsCompleted (Simulation_scheduleEvent t a s) = productsCompleted s"
  "shiftDuration (Simulation_scheduleEvent t a s) = shiftDuration s"
  "currentShift (Simulation_scheduleEvent t a s) = currentShift s"
  "shiftCount (Simulation_scheduleEvent t a s) = shiftCount s"
  "shiftEndTime (Simulation_scheduleEvent t a s) = shiftEndTime s"
  "productQueue (Simulation_scheduleEvent t a s) = productQueue s"
  "cout (Simulation_scheduleEvent t a s) = cout s"
  by (simp_all add: Simulation_scheduleEvent_def)

lemma machine_scheduleEvent [simp]:
  "machine i (Simulation_scheduleEvent t a s) = machine i s"
  by (cases i) simp_all

lemma print_fields [simp]:
  "eventQueue (print l s) = eventQueue s"
  "currentTime (print l s) = currentTime s"
  "rawMaterialHandler (print l s) = rawMaterialHandler s"
  "machining (print l s) = machining s"
  "assembly (print l s) = assembly s"
  "qualityControl (print l s) = qualityControl s"
  "packaging (print l s) = packaging s"
  "productsCompleted (print l s) = productsCompleted s"
  "shiftDuration (print l s) = shiftDuration s"
  "currentShift (print l s) = currentShift s"
  "shiftCount (print l s) = shiftCount s"
  "shiftEndTime (print l s) = shiftEndTime s"
  "productQueue (print l s) = productQueue s"
  "cout (print l s) = cout s @ [l]"
  by (simp_all add: print_def)

lemma machine_print [simp]: "machine i (print l s) = machine i s"
  by (cases i) simp_all

lemma machine_update_fields [simp]:
  "eventQueue (machine_update i f s) = eventQueue s"
  "currentTime (machine_update i f s) = currentTime s"
  "productsCompleted (machine_update i f s) = productsCompleted s"
  "shiftDuration (machine_update i f s) = shiftDuration s"
  "currentShift (machine_update i f s) = currentShift s"
  "shiftCount (machine_update i f s) = shiftCount s"
  "shiftEndTime (machine_update i f s) = shiftEndTime s"
  "productQueue (machine_update i f s) = productQueue s"
  "cout (machine_update i f s) = cout s"
  by (cases i; simp)+

lemma machine_machine_update [simp]:
  "machine j (machine_update i f s) = (if j = i then f (machine i s) else machine j s)"
  by (cases i; cases j) simp_all

lemma getCurrentTime [simp]: "Simulation_getCurrentTime s = currentTime s"
  by (simp add: Simulation_getCurrentTime_def)

lemma startProcessing_rejected:
  "rejects this p d s \<Longrightarrow> Machine_startProcessing u this p d s = s"
  by (simp add: Machine_startProcessing_def rejects_def)

lemma startProcessing_accepted:
  assumes "\<not> rejects this p d s"
  shows "Machine_startProcessing u this p d s =
     Simulation_scheduleEvent
       (if breaks_down u this s then currentTime s + maintenanceTime (machine this s)
        else currentTime s + (processTimes (machine this s) p + setupTimes (machine this s) p))
       (if breaks_down u this s then RetryLambda this p d else CompleteLambda this p)
       (machine_update this (\<lambda>m. m\<lparr>isBusy := True, generator := generator m + 1\<rparr>)
         (s\<lparr>cout := cout s @
            (if breaks_down u this s
             then [MachineStarted (name (machine this s)) p (currentTime s),
                   MachineBrokeDown (name (machine this s))]
             else [MachineStarted (name (machine this s)) p (currentTime s)])\<rparr>))"
  using assms
  by (cases this)
    (simp_all add: Machine_startProcessing_def rejects_def breaks_down_def Let_def print_def
      Simulation_scheduleEvent_def)

lemma startProcessing_frame [simp]:
  "currentTime (Machine_startProcessing u this p d s) = currentTime s"
  "productsCompleted (Machine_startProcessing u this p d s) = productsCompleted s"
  "shiftDuration (Machine_startProcessing u this p d s) = shiftDuration s"
  "currentShift (Machine_startProcessing u this p d s) = currentShift s"
  "shiftCount (Machine_startProcessing u this p d s) = shiftCount s"
  "shiftEndTime (Machine_startProcessing u this p d s) = shiftEndTime s"
  "productQueue (Machine_startProcessing u this p d s) = productQueue s"
  by (cases "rejects this p d s";
      simp add: startProcessing_rejected startProcessing_accepted)+

section \<open>The run of the manufacturing system\<close>

lemma set_priority_queue_push [simp]: "set (priority_queue_push c x) = insert x (set c)"
  using mset_priority_queue_push [of c x] by (metis set_mset_add_mset_insert set_mset_mset)

lemma run_upto_empty [simp]: "eventQueue s = [] \<Longrightarrow> Simulation_run_upto exec n s = s"
  by (cases n) simp_all

lemma run_upto_add:
  "Simulation_run_upto exec (n + m) s = Simulation_run_upto exec m (Simulation_run_upto exec n s)"
  by (induction n arbitrary: s) simp_all

lemma run_upto_Suc:
  "Simulation_run_upto exec (Suc n) s =
     (if eventQueue (Simulation_run_upto exec n s) \<noteq> []
      then Simulation_step exec (Simulation_run_upto exec n s)
      else Simulation_run_upto exec n s)"
  using run_upto_add [of exec n 1 s] by simp

lemma run_upto_invariant:
  assumes "P s" and "\<And>s. P s \<Longrightarrow> eventQueue s \<noteq> [] \<Longrightarrow> P (Simulation_step exec s)"
  shows "P (Simulation_run_upto exec n s)"
  using assms(1) by (induction n arbitrary: s) (simp_all add: assms(2))

lemma machine_ok_update [simp]:
  "machine_ok (m\<lparr>isBusy := b\<rparr>) = machine_ok m"
  "machine_ok (m\<lparr>generator := g\<rparr>) = machine_ok m"
  by (simp_all add: machine_ok_def)

lemma machine_field_update [simp]:
  "machine i (s\<lparr>cout := c\<rparr>) = machine i s"
  "machine i (s\<lparr>eventQueue := q\<rparr>) = machine i s"
  "machine i (s\<lparr>currentTime := t\<rparr>) = machine i s"
  "machine i (s\<lparr>productQueue := pq\<rparr>) = machine i s"
  "machine i (s\<lparr>productsCompleted := k\<rparr>) = machine i s"
  "machine i (s\<lparr>currentShift := k\<rparr>) = machine i s"
  "machine i (s\<lparr>shiftEndTime := t\<rparr>) = machine i s"
  by (cases i; simp)+

lemma config_ok_simps [simp]:
  "config_ok (Simulation_scheduleEvent t a s) = config_ok s"
  "config_ok (print l s) = config_ok s"
  "config_ok (s\<lparr>cout := c\<rparr>) = config_ok s"
  "config_ok (s\<lparr>eventQueue := q\<rparr>) = config_ok s"
  "config_ok (s\<lparr>currentTime := t\<rparr>) = config_ok s"
  "config_ok (s\<lparr>productQueue := pq\<rparr>) = config_ok s"
  "config_ok (s\<lparr>productsCompleted := k\<rparr>) = config_ok s"
  "config_ok (s\<lparr>currentShift := k\<rparr>) = config_ok s"
  "config_ok (s\<lparr>shiftEndTime := t\<rparr>) = config_ok s"
  by (simp_all add: config_ok_def)

lemma config_ok_machine_update [simp]:
  "config_ok (machine_update i (\<lambda>m. m\<lparr>isBusy := b\<rparr>) s) = config_ok s"
  "config_ok (machine_update i (\<lambda>m. m\<lparr>isBusy := b, generator := g m\<rparr>) s) = config_ok s"
  by (auto simp add: config_ok_def)

lemma config_ok_startProcessing [simp]:
  "config_ok (Machine_startProcessing u this p d s) = config_ok s"
  by (cases "rejects this p d s")
    (simp_all add: startProcessing_rejected startProcessing_accepted)

lemma startProduction_frame [simp]:
  "currentTime (startProduction u s) = currentTime s"
  "shiftDuration (startProduction u s) = shiftDuration s"
  "shiftCount (startProduction u s) = shiftCount s"
  "currentShift (startProduction u s) = currentShift s"
  "shiftEndTime (startProduction u s) = shiftEndTime s"
  by (simp_all add: startProduction_def Let_def)

lemma call_onProcessComplete_frame [simp]:
  "currentTime (call_onProcessComplete u cb p s) = currentTime s"
  "shiftDuration (call_onProcessComplete u cb p s) = shiftDuration s"
  "shiftCount (call_onProcessComplete u cb p s) = shiftCount s"
  "currentShift (call_onProcessComplete u cb p s) = currentShift s"
  "shiftEndTime (call_onProcessComplete u cb p s) = shiftEndTime s"
  by (cases cb;
      simp add: startMachining_def startAssembly_def startQualityControl_def
        startPackaging_def finishProduct_def Let_def)+

lemma endShift_frame [simp]:
  "currentTime (endShift s) = currentTime s"
  "shiftDuration (endShift s) = shiftDuration s"
  "shiftCount (endShift s) = shiftCount s"
  "currentShift (endShift s) = currentShift s"
  "shiftEndTime (endShift s) = shiftEndTime s"
  "productsCompleted (endShift s) = productsCompleted s"
  "productQueue (endShift s) = productQueue s"
  by (simp_all add: endShift_def Let_def printResults_def)

lemma startShift_frame [simp]:
  "currentTime (startShift u s) = currentTime s"
  "shiftDuration (startShift u s) = shiftDuration s"
  "shiftCount (startShift u s) = shiftCount s"
  "currentShift (startShift u s) = currentShift s + 1"
  "shiftEndTime (startShift u s) = currentTime s + of_int (shiftDuration s)"
  by (simp_all add: startShift_def Let_def)

lemma call_action_frame [simp]:
  "currentTime (call_action u a s) = currentTime s"
  "shiftDuration (call_action u a s) = shiftDuration s"
  "shiftCount (call_action u a s) = shiftCount s"
  by (cases a; simp add: Let_def)+

lemma causal_scheduleEvent:
  "causal s \<Longrightarrow> currentTime s \<le> t \<Longrightarrow> causal (Simulation_scheduleEvent t a s)"
  by (simp add: causal_def is_heap_priority_queue_push)

lemma causal_simps [simp]:
  "causal (print l s) = causal s"
  "causal (s\<lparr>cout := c\<rparr>) = causal s"
  "causal (s\<lparr>productQueue := pq\<rparr>) = causal s"
  "causal (s\<lparr>productsCompleted := k\<rparr>) = causal s"
  "causal (s\<lparr>currentShift := k\<rparr>) = causal s"
  "causal (s\<lparr>shiftEndTime := t\<rparr>) = causal s"
  "causal (machine_update i (\<lambda>m. m\<lparr>isBusy := b\<rparr>) s) = causal s"
  "causal (machine_update i (\<lambda>m. m\<lparr>isBusy := b, generator := g m\<rparr>) s) = causal s"
  by (simp_all add: causal_def)

lemma causal_startProcessing:
  assumes "causal s"
  shows "causal (Machine_startProcessing u this p d s)"
proof (cases "rejects this p d s")
  case True
  with assms show ?thesis by (simp add: startProcessing_rejected)
next
  case False
  from assms have "machine_ok (machine this s)"
    by (simp add: causal_def config_ok_def)
  then have "0 \<le> maintenanceTime (machine this s)"
    "0 \<le> processTimes (machine this s) p + setupTimes (machine this s) p"
    by (simp_all add: machine_ok_def)
  with assms False show ?thesis
    by (simp add: startProcessing_accepted causal_scheduleEvent)
qed

lemma causal_startProduction: "causal s \<Longrightarrow> causal (startProduction u s)"
  by (simp add: startProduction_def Let_def causal_startProcessing)

lemma causal_call_onProcessComplete:
  "causal s \<Longrightarrow> causal (call_onProcessComplete u cb p s)"
  by (cases cb)
    (simp_all add: startMachining_def startAssembly_def startQualityControl_def
      startPackaging_def finishProduct_def Let_def causal_startProcessing causal_startProduction)

lemma causal_startShift:
  assumes "causal s"
  shows "causal (startShift u s)"
proof -
  from assms have "0 \<le> shiftDuration s"
    by (simp add: causal_def config_ok_def)
  with assms show ?thesis
    by (simp add: startShift_def Let_def causal_startProduction causal_scheduleEvent)
qed

lemma causal_endShift: "causal s \<Longrightarrow> causal (endShift s)"
  by (simp add: endShift_def Let_def printResults_def causal_scheduleEvent)

lemma causal_call_action: "causal s \<Longrightarrow> causal (call_action u a s)"
  by (cases a)
    (simp_all add: causal_startShift causal_endShift causal_startProcessing Let_def
      causal_call_onProcessComplete)

lemma causal_step:
  assumes "causal s" "eventQueue s \<noteq> []"
  shows "causal (Simulation_step (call_action u) s)
         \<and> currentTime s \<le> currentTime (Simulation_step (call_action u) s)"
proof -
  let ?q = "eventQueue s"
  let ?e = "priority_queue_top ?q"
  let ?s2 = "s\<lparr>eventQueue := priority_queue_pop ?q, currentTime := time ?e\<rparr>"
  from assms have heap: "is_heap ?q" by (simp add: causal_def)
  from priority_queue_pop_props [OF assms(2) heap]
  have pop: "is_heap (priority_queue_pop ?q)"
    and m: "add_mset ?e (mset (priority_queue_pop ?q)) = mset ?q"
    by simp_all
  from m have sub: "set (priority_queue_pop ?q) \<subseteq> set ?q" and top: "?e \<in> set ?q"
    by (metis set_mset_mset set_mset_add_mset_insert subset_insertI,
        metis set_mset_mset union_single_eq_member)
  have "causal ?s2"
    using assms(1) pop sub priority_queue_top_min [OF heap]
    by (auto simp add: causal_def)
  then have "causal (call_action u (action ?e) ?s2)"
    by (rule causal_call_action)
  moreover have "Simulation_step (call_action u) s = call_action u (action ?e) ?s2"
    by (simp add: Simulation_step_def Let_def)
  moreover have "currentTime (call_action u (action ?e) ?s2) = time ?e"
    by simp
  ultimately show ?thesis
    using assms(1) top by (simp add: causal_def)
qed

lemma unordered_map_nonneg:
  "(\<And>k v. (k, v) \<in> set kvs \<Longrightarrow> 0 \<le> v) \<Longrightarrow> 0 \<le> unordered_map kvs k"
  by (auto simp add: unordered_map_def split: option.splits dest: map_of_SomeD)

lemma config_ok_new: "0 \<le> sd \<Longrightarrow> config_ok (ManufacturingSystem_new sd sc g)"
proof -
  assume "0 \<le> sd"
  moreover have "machine_ok (machine i (ManufacturingSystem_new sd sc g))" for i
    by (cases i)
      (auto simp add: ManufacturingSystem_new_def Machine_new_def machine_ok_def
        intro!: add_nonneg_nonneg unordered_map_nonneg)
  ultimately show ?thesis
    by (simp add: config_ok_def) (simp add: ManufacturingSystem_new_def)
qed

lemma is_heap_Nil [simp]: "is_heap []"
  by (simp add: is_heap_def heap_upto_def)

lemma causal_run_start:
  "0 \<le> sd \<Longrightarrow> causal (ManufacturingSystem_run_start (ManufacturingSystem_new sd sc g))"
  unfolding ManufacturingSystem_run_start_def
  by (rule causal_scheduleEvent)
    (simp_all add: causal_def config_ok_new, simp_all add: ManufacturingSystem_new_def)

lemma count_actions_mset:
  "count_actions P q = size (filter_mset (\<lambda>e. P (action e)) (mset q))"
  by (simp add: count_actions_def flip: mset_filter)

lemma count_actions_Nil [simp]: "count_actions P [] = 0"
  by (simp add: count_actions_def)

lemma count_actions_push [simp]:
  "count_actions P (priority_queue_push q e) = count_actions P q + (if P (action e) then 1 else 0)"
  by (simp add: count_actions_mset)

lemma count_actions_pop:
  assumes "q \<noteq> []" "is_heap q"
  shows "count_actions P q =
    count_actions P (priority_queue_pop q) + (if P (action (priority_queue_top q)) then 1 else 0)"
proof -
  from priority_queue_pop_props [OF assms]
  have "mset q = add_mset (priority_queue_top q) (mset (priority_queue_pop q))" by simp
  then show ?thesis by (simp add: count_actions_mset)
qed

lemma is_heap_startProcessing:
  "is_heap (eventQueue s) \<Longrightarrow> is_heap (eventQueue (Machine_startProcessing u this p d s))"
  by (cases "rejects this p d s")
    (simp_all add: startProcessing_rejected startProcessing_accepted is_heap_priority_queue_push)

lemma is_heap_startProduction:
  "is_heap (eventQueue s) \<Longrightarrow> is_heap (eventQueue (startProduction u s))"
  by (simp add: startProduction_def Let_def is_heap_startProcessing)

lemma is_heap_call_onProcessComplete:
  "is_heap (eventQueue s) \<Longrightarrow> is_heap (eventQueue (call_onProcessComplete u cb p s))"
  by (cases cb)
    (simp_all add: startMachining_def startAssembly_def startQualityControl_def
      startPackaging_def finishProduct_def Let_def is_heap_startProcessing
      is_heap_startProduction)

lemma is_heap_call_action:
  "is_heap (eventQueue s) \<Longrightarrow> is_heap (eventQueue (call_action u a s))"
  by (cases a)
    (simp_all add: startShift_def endShift_def printResults_def Let_def
      is_heap_startProcessing is_heap_startProduction is_heap_call_onProcessComplete
      is_heap_priority_queue_push)

lemma count_actions_startProcessing:
  "count_actions P (eventQueue (Machine_startProcessing u this p d s)) =
     count_actions P (eventQueue s)
     + (if rejects this p d s then 0
        else if breaks_down u this s then (if P (RetryLambda this p d) then 1 else 0)
        else (if P (CompleteLambda this p) then 1 else 0))"
  by (cases "rejects this p d s")
    (simp_all add: startProcessing_rejected startProcessing_accepted)

lemma count_shift_startProcessing [simp]:
  "count_actions is_shift (eventQueue (Machine_startProcessing u this p d s))
     = count_actions is_shift (eventQueue s)"
  "count_actions is_start_shift (eventQueue (Machine_startProcessing u this p d s))
     = count_actions is_start_shift (eventQueue s)"
  by (simp_all add: count_actions_startProcessing)

lemma count_shift_startProduction [simp]:
  "count_actions is_shift (eventQueue (startProduction u s))
     = count_actions is_shift (eventQueue s)"
  "count_actions is_start_shift (eventQueue (startProduction u s))
     = count_actions is_start_shift (eventQueue s)"
  by (simp_all add: startProduction_def Let_def)

lemma count_shift_call_onProcessComplete [simp]:
  "count_actions is_shift (eventQueue (call_onProcessComplete u cb p s))
     = count_actions is_shift (eventQueue s)"
  "count_actions is_start_shift (eventQueue (call_onProcessComplete u cb p s))
     = count_actions is_start_shift (eventQueue s)"
  by (cases cb;
      simp add: startMachining_def startAssembly_def startQualityControl_def
        startPackaging_def finishProduct_def Let_def)+

lemma count_start_shift_le: "count_actions is_start_shift q \<le> count_actions is_shift q"
proof -
  have "is_start_shift a \<Longrightarrow> is_shift a" for a by (cases a) simp_all
  then show ?thesis
    unfolding count_actions_def
    by (induction q) auto
qed

lemma shift_counter_ok_call_action:
  assumes "is_heap (eventQueue s)" "0 \<le> currentShift s"
    and "currentShift s \<le> max 1 (shiftCount s)"
    and "count_actions is_shift (eventQueue s) + (if is_shift a then 1 else 0) \<le> 1"
    and "0 < count_actions is_start_shift (eventQueue s) + (if is_start_shift a then 1 else 0)
         \<longrightarrow> currentShift s < max 1 (shiftCount s)"
  shows "shift_counter_ok (call_action u a s)"
proof -
  have heap: "is_heap (eventQueue (call_action u a s))"
    using assms(1) by (rule is_heap_call_action)
  have start0: "count_actions is_start_shift (eventQueue s) = 0" if "is_shift a"
    using that assms(4) count_start_shift_le [of "eventQueue s"] by simp
  show ?thesis
  proof (cases a)
    case StartShiftLambda
    with assms heap start0 show ?thesis
      by (simp add: shift_counter_ok_def) (simp add: startShift_def Let_def)
  next
    case EndShiftLambda
    with assms heap start0 show ?thesis
      by (simp add: shift_counter_ok_def) (auto simp add: endShift_def Let_def printResults_def)
  next
    case (RetryLambda this p d)
    with assms heap count_start_shift_le [of "eventQueue s"] show ?thesis
      by (auto simp add: shift_counter_ok_def)
  next
    case (CompleteLambda this p)
    with assms heap count_start_shift_le [of "eventQueue s"] show ?thesis
      by (auto simp add: shift_counter_ok_def Let_def)
  qed
qed

lemma shift_counter_ok_step:
  assumes "shift_counter_ok s" "eventQueue s \<noteq> []"
  shows "shift_counter_ok (Simulation_step (call_action u) s)"
proof -
  let ?q = "eventQueue s"
  let ?e = "priority_queue_top ?q"
  let ?s2 = "s\<lparr>eventQueue := priority_queue_pop ?q, currentTime := time ?e\<rparr>"
  from assms have heap: "is_heap ?q" by (simp add: shift_counter_ok_def)
  from priority_queue_pop_props [OF assms(2) heap]
  have pop: "is_heap (priority_queue_pop ?q)" by simp
  have "shift_counter_ok (call_action u (action ?e) ?s2)"
    using assms(1) pop count_actions_pop [OF assms(2) heap, of is_shift]
      count_actions_pop [OF assms(2) heap, of is_start_shift]
    by (intro shift_counter_ok_call_action) (simp_all add: shift_counter_ok_def)
  then show ?thesis
    by (simp add: Simulation_step_def Let_def)
qed

lemma shift_counter_ok_run_start:
  "shift_counter_ok (ManufacturingSystem_run_start (ManufacturingSystem_new sd sc g))"
  by (simp add: shift_counter_ok_def ManufacturingSystem_run_start_def
      is_heap_priority_queue_push ManufacturingSystem_new_def max_def)

lemma currentShift_call_action:
  "currentShift (call_action u a s) = (if a = StartShiftLambda then currentShift s + 1 else currentShift s)"
  by (cases a) (simp_all add: Let_def)

lemma currentShift_step:
  "currentShift (Simulation_step (call_action u) s) = currentShift s
   \<or> currentShift (Simulation_step (call_action u) s) = currentShift s + 1"
  by (simp add: Simulation_step_def Let_def currentShift_call_action)


text \<open>
  The shift counter in every run: the first shift always starts, so the bound is the
  greater of 1 and \<open>shiftCount\<close>.
\<close>

lemma shift_counter_general:
  "currentShift (startShift u s) = currentShift s + 1
   \<and> 0 \<le> currentShift (Simulation_run_upto (call_action u) n
            (ManufacturingSystem_run_start (ManufacturingSystem_new sd sc g)))
   \<and> currentShift (Simulation_run_upto (call_action u) n
        (ManufacturingSystem_run_start (ManufacturingSystem_new sd sc g))) \<le> max 1 sc
   \<and> (currentShift (Simulation_run_upto (call_action u) (Suc n)
          (ManufacturingSystem_run_start (ManufacturingSystem_new sd sc g)))
        = currentShift (Simulation_run_upto (call_action u) n
            (ManufacturingSystem_run_start (ManufacturingSystem_new sd sc g)))
      \<or> currentShift (Simulation_run_upto (call_action u) (Suc n)
          (ManufacturingSystem_run_start (ManufacturingSystem_new sd sc g)))
        = currentShift (Simulation_run_upto (call_action u) n
            (ManufacturingSystem_run_start (ManufacturingSystem_new sd sc g))) + 1)
   \<and> (currentShift s < shiftCount s \<longrightarrow>
        endShift s =
          Simulation_scheduleEvent (Simulation_getCurrentTime s) StartShiftLambda
            (print (ShiftEnded (currentShift s) (Simulation_getCurrentTime s)) s))
   \<and> (\<not> currentShift s < shiftCount s \<longrightarrow>
        endShift s =
          print (Results (productsCompleted s) (Simulation_getCurrentTime s))
            (print (ShiftEnded (currentShift s) (Simulation_getCurrentTime s)) s))"
proof -
  let ?init = "ManufacturingSystem_run_start (ManufacturingSystem_new sd sc g)"
  let ?s = "Simulation_run_upto (call_action u) n ?init"
  have "shift_counter_ok ?s"
    by (rule run_upto_invariant) (simp_all add: shift_counter_ok_run_start shift_counter_ok_step)
  moreover have "shiftCount ?s = sc"
    by (rule run_upto_invariant)
      (simp_all add: ManufacturingSystem_run_start_def Simulation_step_def Let_def,
       simp add: ManufacturingSystem_new_def)
  ultimately have "0 \<le> currentShift ?s" "currentShift ?s \<le> max 1 sc"
    by (simp_all add: shift_counter_ok_def)
  moreover have "currentShift (Simulation_run_upto (call_action u) (Suc n) ?init) = currentShift ?s
      \<or> currentShift (Simulation_run_upto (call_action u) (Suc n) ?init) = currentShift ?s + 1"
    unfolding run_upto_Suc using currentShift_step [of u ?s] by simp
  moreover have "currentShift (startShift u s) = currentShift s + 1"
    by simp
  moreover have "currentShift s < shiftCount s \<Longrightarrow>
        endShift s =
          Simulation_scheduleEvent (Simulation_getCurrentTime s) StartShiftLambda
            (print (ShiftEnded (currentShift s) (Simulation_getCurrentTime s)) s)"
    by (simp add: endShift_def Let_def)
  moreover have "\<not> currentShift s < shiftCount s \<Longrightarrow>
        endShift s =
          print (Results (productsCompleted s) (Simulation_getCurrentTime s))
            (print (ShiftEnded (currentShift s) (Simulation_getCurrentTime s)) s)"
    by (simp add: endShift_def Let_def printResults_def)
  ultimately show ?thesis by blast
qed


section \<open>Units taken from the product queue and products completed\<close>

lemma startProduction_products [simp]:
  "productsCompleted (startProduction u s) = productsCompleted s"
  "productQueue (startProduction u s) = tl (productQueue s)"
  by (simp_all add: startProduction_def Let_def)

lemma call_action_monotone:
  "productsCompleted s \<le> productsCompleted (call_action u a s)
   \<and> suffix (productQueue (call_action u a s)) (productQueue s)"
proof (cases a)
  case StartShiftLambda
  then show ?thesis
    by (simp add: startShift_def Let_def suffix_tl)
next
  case (CompleteLambda this p)
  have "productsCompleted s' \<le> productsCompleted (call_onProcessComplete u cb p s')
   \<and> suffix (productQueue (call_onProcessComplete u cb p s')) (productQueue s')" for cb s'
    by (cases cb)
      (simp_all add: startMachining_def startAssembly_def startQualityControl_def
        startPackaging_def finishProduct_def Let_def suffix_tl)
  from this [of "print (MachineFinished (name (machine this s)) p (currentTime s))
              (machine_update this (\<lambda>m. m\<lparr>isBusy := False\<rparr>) s)"] CompleteLambda
  show ?thesis by (simp add: Let_def)
qed simp_all

lemma length_backlog_new: "length (productQueue (ManufacturingSystem_new sd sc g)) = 200"
  by (simp add: ManufacturingSystem_new_def length_concat sum_list_replicate)


section \<open>The run ends, and does not depend on the samples when no machine can break down\<close>

lemma pending_weight_mset:
  "pending_weight cs sc q = sum_mset (image_mset (\<lambda>e. weight cs sc (action e)) (mset q))"
  by (simp add: pending_weight_def flip: sum_mset_sum_list)

lemma pending_weight_Nil [simp]: "pending_weight cs sc [] = 0"
  by (simp add: pending_weight_def)

lemma pending_weight_push [simp]:
  "pending_weight cs sc (priority_queue_push q e)
     = weight cs sc (action e) + pending_weight cs sc q"
  by (simp add: pending_weight_mset)

lemma pending_weight_pop:
  assumes "q \<noteq> []" "is_heap q"
  shows "pending_weight cs sc q
     = weight cs sc (action (priority_queue_top q)) + pending_weight cs sc (priority_queue_pop q)"
proof -
  from priority_queue_pop_props [OF assms]
  have "mset q = add_mset (priority_queue_top q) (mset (priority_queue_pop q))" by simp
  then show ?thesis by (simp add: pending_weight_mset)
qed

lemma pending_weight_no_shift:
  assumes "count_actions is_shift q = 0"
  shows "pending_weight cs sc q = pending_weight cs' sc q"
proof -
  from assms have "\<forall>e\<in>set q. \<not> is_shift (action e)"
    by (simp add: count_actions_def filter_empty_conv)
  moreover have "\<not> is_shift a \<Longrightarrow> weight cs sc a = weight cs' sc a" for a
    by (cases a) simp_all
  ultimately show ?thesis
    unfolding pending_weight_def by (intro arg_cong [where f = sum_list] map_cong) auto
qed

lemma weight_le_stage:
  "of_machine i a \<Longrightarrow> weight cs sc a \<le> stage_weight i"
  by (cases a; cases i) auto

lemma stage_weight_pos: "1 \<le> stage_weight i"
  by (cases i) simp_all

lemma occupied_ok_startProcessing:
  assumes "occupied_ok s"
  shows "occupied_ok (Machine_startProcessing u j p d s)"
proof (cases "rejects j p d s")
  case True
  with assms show ?thesis by (simp add: startProcessing_rejected)
next
  case False
  then have "\<not> isBusy (machine j s)" by (simp add: rejects_def)
  with assms have "count_actions (of_machine j) (eventQueue s) = 0"
    by (auto simp add: occupied_ok_def)
  with assms False show ?thesis
    by (auto simp add: occupied_ok_def startProcessing_accepted)
qed

lemma potential_startProcessing:
  "potential (Machine_startProcessing u j p d s) \<le> potential s + stage_weight j"
proof (cases "rejects j p d s")
  case True
  then show ?thesis by (simp add: startProcessing_rejected)
next
  case False
  then show ?thesis
    using stage_weight_pos [of j]
    by (simp add: potential_def startProcessing_accepted)
qed

lemma pipeline_wired_simps [simp]:
  "pipeline_wired (Simulation_scheduleEvent t a s) = pipeline_wired s"
  "pipeline_wired (print l s) = pipeline_wired s"
  "pipeline_wired (s\<lparr>cout := c\<rparr>) = pipeline_wired s"
  "pipeline_wired (s\<lparr>eventQueue := q\<rparr>) = pipeline_wired s"
  "pipeline_wired (s\<lparr>currentTime := t\<rparr>) = pipeline_wired s"
  "pipeline_wired (s\<lparr>productQueue := pq\<rparr>) = pipeline_wired s"
  "pipeline_wired (s\<lparr>productsCompleted := k\<rparr>) = pipeline_wired s"
  "pipeline_wired (s\<lparr>currentShift := k\<rparr>) = pipeline_wired s"
  "pipeline_wired (s\<lparr>shiftEndTime := t\<rparr>) = pipeline_wired s"
  "pipeline_wired (machine_update i (\<lambda>m. m\<lparr>isBusy := b\<rparr>) s) = pipeline_wired s"
  "pipeline_wired (machine_update i (\<lambda>m. m\<lparr>isBusy := b, generator := g m\<rparr>) s)
     = pipeline_wired s"
  by (simp_all add: pipeline_wired_def, (cases i; simp)+)

lemma pipeline_wired_startProcessing [simp]:
  "pipeline_wired (Machine_startProcessing u j p d s) = pipeline_wired s"
  by (cases "rejects j p d s")
    (simp_all add: startProcessing_rejected startProcessing_accepted)

lemma run_parts_startProduction:
  assumes "occupied_ok s"
  shows "occupied_ok (startProduction u s) \<and> potential (startProduction u s) \<le> potential s
         \<and> pipeline_wired (startProduction u s) = pipeline_wired s"
proof (cases "productQueue s = []")
  case True
  with assms show ?thesis by (simp add: startProduction_def)
next
  case False
  let ?s1 = "s\<lparr>productQueue := tl (productQueue s)\<rparr>"
  have occ: "occupied_ok ?s1" using assms by (simp add: occupied_ok_def)
  have "potential ?s1 + 5 = potential s"
    using False by (cases "productQueue s") (simp_all add: potential_def)
  with potential_startProcessing [of u RawMaterialHandler "hd (productQueue s)" "shiftEndTime ?s1" ?s1]
  have "potential (Machine_startProcessing u RawMaterialHandler (hd (productQueue s))
          (shiftEndTime ?s1) ?s1) \<le> potential s"
    by simp
  with False occ show ?thesis
    by (simp add: startProduction_def Let_def occupied_ok_startProcessing)
qed

lemma run_parts_callback:
  assumes "pipeline_wired s" "occupied_ok s"
  shows "occupied_ok (call_onProcessComplete u (onProcessComplete (machine j s)) p s)
     \<and> potential (call_onProcessComplete u (onProcessComplete (machine j s)) p s) + 1
           \<le> potential s + stage_weight j
     \<and> pipeline_wired (call_onProcessComplete u (onProcessComplete (machine j s)) p s)"
proof (cases j)
  case RawMaterialHandler
  with assms(1) have "onProcessComplete (machine j s) = CallStartMachining"
    by (simp add: pipeline_wired_def)
  with RawMaterialHandler assms potential_startProcessing [of u Machining p "shiftEndTime s" s] show ?thesis
    by (simp add: startMachining_def occupied_ok_startProcessing)
next
  case Machining
  with assms(1) have "onProcessComplete (machine j s) = CallStartAssembly"
    by (simp add: pipeline_wired_def)
  with Machining assms potential_startProcessing [of u Assembly p "shiftEndTime s" s] show ?thesis
    by (simp add: startAssembly_def occupied_ok_startProcessing)
next
  case Assembly
  with assms(1) have "onProcessComplete (machine j s) = CallStartQualityControl"
    by (simp add: pipeline_wired_def)
  with Assembly assms potential_startProcessing [of u QualityControl p "shiftEndTime s" s] show ?thesis
    by (simp add: startQualityControl_def occupied_ok_startProcessing)
next
  case QualityControl
  with assms(1) have "onProcessComplete (machine j s) = CallStartPackaging"
    by (simp add: pipeline_wired_def)
  with QualityControl assms potential_startProcessing [of u Packaging p "shiftEndTime s" s] show ?thesis
    by (simp add: startPackaging_def occupied_ok_startProcessing)
next
  case Packaging
  let ?s2 = "print (ProductFinished p (currentTime s))
              (s\<lparr>productsCompleted := productsCompleted s + 1\<rparr>)"
  have s2: "occupied_ok ?s2" "potential ?s2 = potential s" "pipeline_wired ?s2"
    using assms by (simp_all add: occupied_ok_def potential_def)
  from run_parts_startProduction [OF s2(1), of u] s2
  have "occupied_ok (finishProduct u p s) \<and> potential (finishProduct u p s) \<le> potential s
      \<and> pipeline_wired (finishProduct u p s)"
    by (simp add: finishProduct_def Let_def)
  moreover from Packaging assms(1) have "onProcessComplete (machine j s) = CallFinishProduct"
    by (simp add: pipeline_wired_def)
  ultimately show ?thesis
    using Packaging by simp
qed

lemma run_inv_call_action:
  assumes heap: "is_heap (eventQueue s)" and wired: "pipeline_wired s"
    and shift: "count_actions is_shift (eventQueue s) + (if is_shift a then 1 else 0) \<le> 1"
    and occ: "\<And>i. count_actions (of_machine i) (eventQueue s)
                   + (if of_machine i a then 1 else 0) = 0
               \<or> (isBusy (machine i s)
                   \<and> count_actions (of_machine i) (eventQueue s)
                       + (if of_machine i a then 1 else 0) = 1)"
  shows "run_inv (call_action u a s)
     \<and> potential (call_action u a s) < potential s + weight (currentShift s) (shiftCount s) a"
proof -
  have heap': "is_heap (eventQueue (call_action u a s))"
    using heap by (rule is_heap_call_action)
  show ?thesis
  proof (cases a)
    case StartShiftLambda
    with occ have occ_s: "occupied_ok s" by (simp add: occupied_ok_def)
    from StartShiftLambda shift have no_shift: "count_actions is_shift (eventQueue s) = 0"
      by simp
    let ?s4 = "Simulation_scheduleEvent (currentTime s + of_int (shiftDuration s)) EndShiftLambda
        (print (ShiftStarted (currentShift s + 1) (currentTime s))
          (s\<lparr>currentShift := currentShift s + 1,
               shiftEndTime := currentTime s + of_int (shiftDuration s)\<rparr>))"
    have start: "startShift u s = startProduction u ?s4"
      by (simp add: startShift_def Let_def)
    have occ4: "occupied_ok ?s4" using occ_s by (simp add: occupied_ok_def)
    have "potential ?s4 + 1 = potential s + weight (currentShift s) (shiftCount s) a"
      using pending_weight_no_shift [OF no_shift, of "currentShift s + 1" "shiftCount s" "currentShift s"]
        StartShiftLambda
      by (simp add: potential_def)
    with run_parts_startProduction [OF occ4, of u] wired no_shift heap' StartShiftLambda
    show ?thesis
      by (simp add: run_inv_def start)
  next
    case EndShiftLambda
    with occ have occ_s: "occupied_ok s" by (simp add: occupied_ok_def)
    from EndShiftLambda shift have no_shift: "count_actions is_shift (eventQueue s) = 0"
      by simp
    with EndShiftLambda occ_s wired heap' show ?thesis
      by (auto simp add: run_inv_def endShift_def Let_def printResults_def potential_def
          occupied_ok_def)
  next
    case (RetryLambda this p d)
    from occ [of this] RetryLambda have busy: "isBusy (machine this s)"
      and none: "count_actions (of_machine this) (eventQueue s) = 0"
      by auto
    from busy have same: "call_action u a s = s"
      using RetryLambda by (simp add: startProcessing_rejected rejects_def)
    have "occupied_ok s"
      unfolding occupied_ok_def
    proof
      fix i show "count_actions (of_machine i) (eventQueue s) = 0
          \<or> (isBusy (machine i s) \<and> count_actions (of_machine i) (eventQueue s) = 1)"
        using occ [of i] none RetryLambda by (cases "i = this") auto
    qed
    with same heap wired shift RetryLambda show ?thesis
      by (simp add: run_inv_def)
  next
    case (CompleteLambda this p)
    from occ [of this] CompleteLambda
    have none: "count_actions (of_machine this) (eventQueue s) = 0"
      by auto
    let ?s2 = "print (MachineFinished (name (machine this s)) p (currentTime s))
                (machine_update this (\<lambda>m. m\<lparr>isBusy := False\<rparr>) s)"
    have act: "call_action u a s
        = call_onProcessComplete u (onProcessComplete (machine this ?s2)) p ?s2"
      using CompleteLambda by (simp add: Let_def)
    have occ2: "occupied_ok ?s2"
      unfolding occupied_ok_def
    proof
      fix i show "count_actions (of_machine i) (eventQueue ?s2) = 0
          \<or> (isBusy (machine i ?s2) \<and> count_actions (of_machine i) (eventQueue ?s2) = 1)"
        using occ [of i] none CompleteLambda by (cases "i = this") auto
    qed
    have wired2: "pipeline_wired ?s2" using wired by simp
    have pot2: "potential ?s2 = potential s" by (simp add: potential_def)
    let ?s3 = "call_onProcessComplete u (onProcessComplete (machine this ?s2)) p ?s2"
    have "is_heap (eventQueue ?s3)"
      using heap by (intro is_heap_call_onProcessComplete) simp
    moreover have "count_actions is_shift (eventQueue ?s3) \<le> 1"
      using shift by simp
    ultimately have "run_inv ?s3 \<and> potential ?s3 < potential s + stage_weight this"
      using run_parts_callback [OF wired2 occ2, of u this p] pot2
      by (simp add: run_inv_def)
    then show ?thesis
      unfolding act using CompleteLambda by simp
  qed
qed

lemma run_inv_step:
  assumes "run_inv s" "eventQueue s \<noteq> []"
  shows "run_inv (Simulation_step (call_action u) s)
     \<and> potential (Simulation_step (call_action u) s) < potential s"
proof -
  let ?q = "eventQueue s"
  let ?e = "priority_queue_top ?q"
  let ?s2 = "s\<lparr>eventQueue := priority_queue_pop ?q, currentTime := time ?e\<rparr>"
  from assms have heap: "is_heap ?q" by (simp add: run_inv_def)
  from priority_queue_pop_props [OF assms(2) heap]
  have pop: "is_heap (priority_queue_pop ?q)" by simp
  have occ: "count_actions (of_machine i) (eventQueue ?s2)
                   + (if of_machine i (action ?e) then 1 else 0) = 0
               \<or> (isBusy (machine i ?s2)
                   \<and> count_actions (of_machine i) (eventQueue ?s2)
                       + (if of_machine i (action ?e) then 1 else 0) = 1)" for i
  proof -
    from assms(1) have "count_actions (of_machine i) ?q = 0
        \<or> (isBusy (machine i s) \<and> count_actions (of_machine i) ?q = 1)"
      by (simp add: run_inv_def occupied_ok_def)
    with count_actions_pop [OF assms(2) heap, of "of_machine i"] show ?thesis
      by (auto split: if_splits)
  qed
  have "run_inv (call_action u (action ?e) ?s2)
     \<and> potential (call_action u (action ?e) ?s2)
         < potential ?s2 + weight (currentShift ?s2) (shiftCount ?s2) (action ?e)"
    using assms(1) pop count_actions_pop [OF assms(2) heap, of is_shift]
    by (intro run_inv_call_action occ) (simp_all add: run_inv_def)
  moreover have "potential ?s2 + weight (currentShift ?s2) (shiftCount ?s2) (action ?e)
      = potential s"
    using pending_weight_pop [OF assms(2) heap, of "currentShift s" "shiftCount s"]
    by (simp add: potential_def)
  ultimately show ?thesis
    by (simp add: Simulation_step_def Let_def)
qed

lemma run_terminates:
  assumes "run_inv s"
  shows "\<exists>n. eventQueue (Simulation_run_upto (call_action u) n s) = []"
  using assms
proof (induction "potential s" arbitrary: s rule: less_induct)
  case less
  show ?case
  proof (cases "eventQueue s = []")
    case True
    then have "eventQueue (Simulation_run_upto (call_action u) 0 s) = []" by simp
    then show ?thesis by blast
  next
    case False
    from run_inv_step [OF less.prems False, of u]
    have "run_inv (Simulation_step (call_action u) s)"
      and "potential (Simulation_step (call_action u) s) < potential s"
      by simp_all
    from less.hyps [OF this(2) this(1)] obtain n
      where "eventQueue (Simulation_run_upto (call_action u) n
                (Simulation_step (call_action u) s)) = []" ..
    with False have "eventQueue (Simulation_run_upto (call_action u) (Suc n) s) = []"
      by simp
    then show ?thesis by blast
  qed
qed

lemma Simulation_run_upto_result:
  "eventQueue (Simulation_run_upto exec n s) = [] \<Longrightarrow>
   Simulation_run exec s = Some (Simulation_run_upto exec n s)"
proof (induction n arbitrary: s)
  case 0
  then show ?case by (subst Simulation_run.simps) simp
next
  case (Suc n)
  show ?case
  proof (cases "eventQueue s = []")
    case True
    then show ?thesis by (subst Simulation_run.simps) simp
  next
    case False
    with Suc.prems have "eventQueue (Simulation_run_upto exec n (Simulation_step exec s)) = []"
      by simp
    from Suc.IH [OF this] False show ?thesis
      by (subst Simulation_run.simps) simp
  qed
qed

lemma not_breaks_down:
  "never_breaks s \<Longrightarrow> samples_nonneg u \<Longrightarrow> \<not> breaks_down u i s"
  by (simp add: never_breaks_def samples_nonneg_def breaks_down_def not_less)

lemma never_breaks_simps [simp]:
  "never_breaks (Simulation_scheduleEvent t a s) = never_breaks s"
  "never_breaks (print l s) = never_breaks s"
  "never_breaks (s\<lparr>cout := c\<rparr>) = never_breaks s"
  "never_breaks (s\<lparr>eventQueue := q\<rparr>) = never_breaks s"
  "never_breaks (s\<lparr>currentTime := t\<rparr>) = never_breaks s"
  "never_breaks (s\<lparr>productQueue := pq\<rparr>) = never_breaks s"
  "never_breaks (s\<lparr>productsCompleted := k\<rparr>) = never_breaks s"
  "never_breaks (s\<lparr>currentShift := k\<rparr>) = never_breaks s"
  "never_breaks (s\<lparr>shiftEndTime := t\<rparr>) = never_breaks s"
  "never_breaks (machine_update i (\<lambda>m. m\<lparr>isBusy := b\<rparr>) s) = never_breaks s"
  "never_breaks (machine_update i (\<lambda>m. m\<lparr>isBusy := b, generator := g m\<rparr>) s)
     = never_breaks s"
  by (auto simp add: never_breaks_def)

lemma never_breaks_startProcessing [simp]:
  "never_breaks (Machine_startProcessing u j p d s) = never_breaks s"
  by (cases "rejects j p d s")
    (simp_all add: startProcessing_rejected startProcessing_accepted)

lemma never_breaks_startProduction [simp]:
  "never_breaks (startProduction u s) = never_breaks s"
  by (simp add: startProduction_def Let_def)

lemma never_breaks_call_onProcessComplete [simp]:
  "never_breaks (call_onProcessComplete u cb p s) = never_breaks s"
  by (cases cb)
    (simp_all add: startMachining_def startAssembly_def startQualityControl_def
      startPackaging_def finishProduct_def Let_def)

lemma never_breaks_call_action [simp]:
  "never_breaks (call_action u a s) = never_breaks s"
  by (cases a) (simp_all add: startShift_def endShift_def printResults_def Let_def)

lemma never_breaks_step [simp]:
  "never_breaks (Simulation_step (call_action u) s) = never_breaks s"
  by (simp add: Simulation_step_def Let_def)

lemma startProcessing_samples:
  assumes "never_breaks s" "samples_nonneg u" "samples_nonneg u'"
  shows "Machine_startProcessing u j p d s = Machine_startProcessing u' j p d s"
proof (cases "rejects j p d s")
  case True
  then show ?thesis by (simp add: startProcessing_rejected)
next
  case False
  with assms not_breaks_down [of s u j] not_breaks_down [of s u' j] show ?thesis
    by (simp add: startProcessing_accepted)
qed

lemma startProduction_samples:
  assumes "never_breaks s" "samples_nonneg u" "samples_nonneg u'"
  shows "startProduction u s = startProduction u' s"
  using assms startProcessing_samples [of "s\<lparr>productQueue := tl (productQueue s)\<rparr>" u u']
  by (simp add: startProduction_def Let_def)

lemma call_onProcessComplete_samples:
  assumes "never_breaks s" "samples_nonneg u" "samples_nonneg u'"
  shows "call_onProcessComplete u cb p s = call_onProcessComplete u' cb p s"
proof (cases cb)
  case CallFinishProduct
  let ?s2 = "print (ProductFinished p (currentTime s))
              (s\<lparr>productsCompleted := productsCompleted s + 1\<rparr>)"
  have "never_breaks ?s2" using assms(1) by simp
  from startProduction_samples [OF this assms(2,3)] CallFinishProduct show ?thesis
    by (simp add: finishProduct_def Let_def)
qed (use startProcessing_samples [OF assms] in
      \<open>simp_all add: startMachining_def startAssembly_def startQualityControl_def
        startPackaging_def\<close>)

lemma call_action_samples:
  assumes "never_breaks s" "samples_nonneg u" "samples_nonneg u'"
  shows "call_action u a s = call_action u' a s"
proof (cases a)
  case StartShiftLambda
  let ?s4 = "Simulation_scheduleEvent (currentTime s + of_int (shiftDuration s)) EndShiftLambda
        (print (ShiftStarted (currentShift s + 1) (currentTime s))
          (s\<lparr>currentShift := currentShift s + 1,
               shiftEndTime := currentTime s + of_int (shiftDuration s)\<rparr>))"
  have "never_breaks ?s4" using assms(1) by simp
  from startProduction_samples [OF this assms(2,3)] StartShiftLambda show ?thesis
    by (simp add: startShift_def Let_def)
next
  case EndShiftLambda
  then show ?thesis by simp
next
  case (RetryLambda this p d)
  with startProcessing_samples [OF assms, of this p d] show ?thesis
    by simp
next
  case (CompleteLambda this p)
  let ?s2 = "print (MachineFinished (name (machine this s)) p (currentTime s))
                (machine_update this (\<lambda>m. m\<lparr>isBusy := False\<rparr>) s)"
  have "never_breaks ?s2" using assms(1) by simp
  from call_onProcessComplete_samples [OF this assms(2,3), of "onProcessComplete (machine this ?s2)" p]
    CompleteLambda
  show ?thesis by (simp add: Let_def)
qed

lemma step_samples:
  assumes "never_breaks s" "samples_nonneg u" "samples_nonneg u'"
  shows "Simulation_step (call_action u) s = Simulation_step (call_action u') s"
  using call_action_samples [OF _ assms(2,3),
      of "s\<lparr>eventQueue := priority_queue_pop (eventQueue s),
            currentTime := time (priority_queue_top (eventQueue s))\<rparr>"] assms(1)
  by (simp add: Simulation_step_def Let_def)

lemma run_upto_samples:
  assumes "never_breaks s" "samples_nonneg u" "samples_nonneg u'"
  shows "Simulation_run_upto (call_action u) n s = Simulation_run_upto (call_action u') n s"
  using assms(1)
proof (induction n arbitrary: s)
  case 0
  show ?case by simp
next
  case (Suc n)
  have "never_breaks (Simulation_step (call_action u') s)"
    using Suc.prems by simp
  from Suc.IH [OF this] step_samples [OF Suc.prems assms(2,3)]
  show ?case by simp
qed

lemma priority_queue_singleton [simp]:
  "priority_queue_push [] e = [e]"
  "priority_queue_pop [e] = []"
  "priority_queue_top [e] = e"
  by (simp_all add: priority_queue_push_def std_push_heap_def std_push_heap_loop.simps
      priority_queue_pop_def std_pop_heap_def priority_queue_top_def)

lemma run_inv_run_start:
  assumes "eventQueue s = []" "pipeline_wired s"
  shows "run_inv (ManufacturingSystem_run_start s)"
  using assms
  by (simp add: run_inv_def ManufacturingSystem_run_start_def occupied_ok_def
      is_heap_priority_queue_push del: priority_queue_singleton)

lemma first_step_overwrites_shiftEndTime:
  assumes "eventQueue s = []"
  shows "Simulation_step (call_action u) (ManufacturingSystem_run_start (s\<lparr>shiftEndTime := g\<rparr>))
       = Simulation_step (call_action u) (ManufacturingSystem_run_start s)"
  using assms
  by (simp add: Simulation_step_def Let_def ManufacturingSystem_run_start_def startShift_def
      Simulation_scheduleEvent_def print_def)

lemma pipeline_wired_new: "pipeline_wired (ManufacturingSystem_new sd sc g)"
  by (simp add: pipeline_wired_def ManufacturingSystem_new_def Machine_new_def)

text \<open>
  The run of a new system ends, whatever the shift duration, the shift count and the
  samples are, and its result is the state after the last iteration: what holds after
  every number of iterations holds for the final state.
\<close>

lemma ManufacturingSystem_run_ends:
  "\<exists>n. eventQueue (Simulation_run_upto (call_action u) n
            (ManufacturingSystem_run_start (ManufacturingSystem_new sd sc g))) = []
       \<and> ManufacturingSystem_run u (ManufacturingSystem_new sd sc g)
           = Some (Simulation_run_upto (call_action u) n
               (ManufacturingSystem_run_start (ManufacturingSystem_new sd sc g)))"
proof -
  have "eventQueue (ManufacturingSystem_new sd sc g) = []"
    by (simp add: ManufacturingSystem_new_def)
  from run_terminates [OF run_inv_run_start [OF this pipeline_wired_new], of u]
  obtain n where "eventQueue (Simulation_run_upto (call_action u) n
            (ManufacturingSystem_run_start (ManufacturingSystem_new sd sc g))) = []" ..
  with Simulation_run_upto_result [OF this] show ?thesis
    unfolding ManufacturingSystem_run_def by blast
qed


section \<open>Units accepted by the first stage\<close>

lemma admitted_okI:
  "0 \<le> productsCompleted s \<Longrightarrow> k \<le> length backlog \<Longrightarrow>
   productQueue s = drop k backlog \<Longrightarrow>
   productsCompleted s + int (count_actions in_flight (eventQueue s))
     \<le> int (generator (rawMaterialHandler s)) \<Longrightarrow>
   generator (rawMaterialHandler s) \<le> k \<Longrightarrow>
   admitted_ok backlog s"
  by (auto simp add: admitted_ok_def)

lemma rawMaterialHandler_machine_update [simp]:
  "rawMaterialHandler (machine_update i f s)
     = (if i = RawMaterialHandler then f (rawMaterialHandler s) else rawMaterialHandler s)"
  by (cases i) simp_all

lemma accepted_startProcessing:
  "generator (rawMaterialHandler (Machine_startProcessing u j p d s))
     = generator (rawMaterialHandler s)
       + (if j = RawMaterialHandler \<and> \<not> rejects j p d s then 1 else 0)"
  by (cases "rejects j p d s")
    (simp_all add: startProcessing_rejected startProcessing_accepted)

lemma in_flight_startProcessing:
  "count_actions in_flight (eventQueue (Machine_startProcessing u j p d s))
     = count_actions in_flight (eventQueue s) + (if rejects j p d s then 0 else 1)"
  by (simp add: count_actions_startProcessing)

lemma admitted_ok_startProcessing_later:
  assumes "j \<noteq> RawMaterialHandler" "0 \<le> productsCompleted s" "k \<le> length backlog"
    and "productQueue s = drop k backlog"
    and "productsCompleted s + int (count_actions in_flight (eventQueue s)) + 1
           \<le> int (generator (rawMaterialHandler s))"
    and "generator (rawMaterialHandler s) \<le> k"
  shows "admitted_ok backlog (Machine_startProcessing u j p d s)"
  using assms
  by (intro admitted_okI [of _ k])
    (simp_all add: accepted_startProcessing in_flight_startProcessing)

lemma admitted_ok_startProduction:
  assumes "0 \<le> productsCompleted s" "k \<le> length backlog"
    and "productQueue s = drop k backlog"
    and "productsCompleted s + int (count_actions in_flight (eventQueue s))
           \<le> int (generator (rawMaterialHandler s))"
    and "generator (rawMaterialHandler s) \<le> k"
  shows "admitted_ok backlog (startProduction u s)"
proof (cases "productQueue s = []")
  case True
  with assms show ?thesis
    by (simp add: startProduction_def admitted_okI [of _ k])
next
  case False
  with assms(3) have k: "Suc k \<le> length backlog" by (cases "k < length backlog") auto
  have tl: "tl (productQueue s) = drop (Suc k) backlog"
    using assms(3) by (simp add: drop_Suc drop_tl)
  let ?s1 = "s\<lparr>productQueue := tl (productQueue s)\<rparr>"
  have "admitted_ok backlog
     (Machine_startProcessing u RawMaterialHandler (hd (productQueue s)) (shiftEndTime ?s1) ?s1)"
    using assms k tl
    by (intro admitted_okI [of _ "Suc k"])
      (simp_all add: accepted_startProcessing in_flight_startProcessing)
  with False show ?thesis
    by (simp add: startProduction_def Let_def)
qed

lemma admitted_ok_call_action:
  assumes "0 \<le> productsCompleted s" "k \<le> length backlog"
    and "productQueue s = drop k backlog"
    and "productsCompleted s + int (count_actions in_flight (eventQueue s))
           + (if in_flight a then 1 else 0) \<le> int (generator (rawMaterialHandler s))"
    and "generator (rawMaterialHandler s) \<le> k"
    and busy: "\<And>j p d. a = RetryLambda j p d \<Longrightarrow> isBusy (machine j s)"
  shows "admitted_ok backlog (call_action u a s)"
proof (cases a)
  case StartShiftLambda
  with assms(1-5) show ?thesis
    by (simp add: startShift_def Let_def)
      (intro admitted_ok_startProduction [of _ k], simp_all)
next
  case EndShiftLambda
  with assms(1-5) show ?thesis
    by (intro admitted_okI [of _ k])
      (simp_all add: endShift_def Let_def printResults_def)
next
  case (RetryLambda this p d)
  from busy [OF this] have "call_action u a s = s"
    using RetryLambda by (simp add: startProcessing_rejected rejects_def)
  with assms(1-5) RetryLambda show ?thesis
    by (simp add: admitted_okI [of _ k])
next
  case (CompleteLambda this p)
  let ?s2 = "print (MachineFinished (name (machine this s)) p (currentTime s))
              (machine_update this (\<lambda>m. m\<lparr>isBusy := False\<rparr>) s)"
  have s2: "0 \<le> productsCompleted ?s2" "productQueue ?s2 = drop k backlog"
    "productsCompleted ?s2 + int (count_actions in_flight (eventQueue ?s2)) + 1
       \<le> int (generator (rawMaterialHandler ?s2))"
    "generator (rawMaterialHandler ?s2) \<le> k"
    using assms(1-5) CompleteLambda by simp_all
  have "admitted_ok backlog (call_onProcessComplete u cb p ?s2)" for cb
  proof (cases cb)
    case CallFinishProduct
    let ?s3 = "print (ProductFinished p (currentTime ?s2))
                (?s2\<lparr>productsCompleted := productsCompleted ?s2 + 1\<rparr>)"
    have "admitted_ok backlog (startProduction u ?s3)"
      using s2 assms(2) by (intro admitted_ok_startProduction [of _ k]) simp_all
    moreover have "admitted_ok backlog ?s3"
      using s2 assms(2) by (intro admitted_okI [of _ k]) simp_all
    ultimately show ?thesis
      using CallFinishProduct by (simp add: finishProduct_def Let_def)
  qed (use s2 assms(2) in \<open>simp_all add: startMachining_def startAssembly_def
        startQualityControl_def startPackaging_def
        admitted_ok_startProcessing_later [of _ _ k]\<close>)
  with CompleteLambda show ?thesis
    by (simp add: Let_def)
qed

lemma admitted_ok_step:
  assumes "run_inv s" "admitted_ok backlog s" "eventQueue s \<noteq> []"
  shows "admitted_ok backlog (Simulation_step (call_action u) s)"
proof -
  let ?q = "eventQueue s"
  let ?e = "priority_queue_top ?q"
  let ?s2 = "s\<lparr>eventQueue := priority_queue_pop ?q, currentTime := time ?e\<rparr>"
  from assms(1) have heap: "is_heap ?q" by (simp add: run_inv_def)
  from assms(2) obtain k where k: "k \<le> length backlog" "productQueue s = drop k backlog"
    "productsCompleted s + int (count_actions in_flight ?q)
       \<le> int (generator (rawMaterialHandler s))"
    "generator (rawMaterialHandler s) \<le> k"
    by (auto simp add: admitted_ok_def)
  have busy: "isBusy (machine j ?s2)" if "action ?e = RetryLambda j p d" for j p d
  proof -
    from assms(1) have "count_actions (of_machine j) ?q = 0
        \<or> (isBusy (machine j s) \<and> count_actions (of_machine j) ?q = 1)"
      by (simp add: run_inv_def occupied_ok_def)
    with count_actions_pop [OF assms(3) heap, of "of_machine j"] that show ?thesis
      by simp
  qed
  have "admitted_ok backlog (call_action u (action ?e) ?s2)"
    using assms(2) k count_actions_pop [OF assms(3) heap, of in_flight] busy
    by (intro admitted_ok_call_action [of _ k]) (auto simp add: admitted_ok_def split: if_splits)
  then show ?thesis
    by (simp add: Simulation_step_def Let_def)
qed

lemma accepted_startProduction:
  "generator (rawMaterialHandler s) \<le> generator (rawMaterialHandler (startProduction u s))"
  by (simp add: startProduction_def Let_def accepted_startProcessing)

lemma accepted_call_action:
  "generator (rawMaterialHandler s) \<le> generator (rawMaterialHandler (call_action u a s))"
proof (cases a)
  case StartShiftLambda
  let ?s4 = "Simulation_scheduleEvent (currentTime s + of_int (shiftDuration s)) EndShiftLambda
        (print (ShiftStarted (currentShift s + 1) (currentTime s))
          (s\<lparr>currentShift := currentShift s + 1,
               shiftEndTime := currentTime s + of_int (shiftDuration s)\<rparr>))"
  from accepted_startProduction [of ?s4 u] StartShiftLambda show ?thesis
    by (simp add: startShift_def Let_def)
next
  case EndShiftLambda
  then show ?thesis by (simp add: endShift_def Let_def printResults_def)
next
  case (RetryLambda this p d)
  then show ?thesis by (simp add: accepted_startProcessing)
next
  case (CompleteLambda this p)
  have "generator (rawMaterialHandler s')
      \<le> generator (rawMaterialHandler (call_onProcessComplete u cb p s'))" for cb s'
  proof (cases cb)
    case CallFinishProduct
    from accepted_startProduction
      [of "print (ProductFinished p (currentTime s'))
            (s'\<lparr>productsCompleted := productsCompleted s' + 1\<rparr>)" u]
      CallFinishProduct
    show ?thesis by (simp add: finishProduct_def Let_def)
  qed (simp_all add: startMachining_def startAssembly_def startQualityControl_def
        startPackaging_def accepted_startProcessing)
  note cb = this
  let ?s2 = "print (MachineFinished (name (machine this s)) p (currentTime s))
              (machine_update this (\<lambda>m. m\<lparr>isBusy := False\<rparr>) s)"
  have "generator (rawMaterialHandler ?s2) = generator (rawMaterialHandler s)"
    by simp
  with cb [of ?s2 "onProcessComplete (machine this ?s2)"]
  have "generator (rawMaterialHandler s)
      \<le> generator (rawMaterialHandler
            (call_onProcessComplete u (onProcessComplete (machine this ?s2)) p ?s2))"
    by simp
  with CompleteLambda show ?thesis by (simp add: Let_def)
qed

lemma admitted_ok_run_start:
  "admitted_ok (productQueue (ManufacturingSystem_new sd sc g))
     (ManufacturingSystem_run_start (ManufacturingSystem_new sd sc g))"
  by (rule admitted_okI [of _ 0])
    (simp_all add: ManufacturingSystem_run_start_def ManufacturingSystem_new_def Machine_new_def
      count_actions_def)


section \<open>The claims about single operations\<close>

text \<open>
  C3.  \<open>startProcessing\<close> returns the state it was given (the machine, the schedule and
  everything else unchanged) exactly when the machine is busy or
  \<open>current time + processTimes[productType] > shiftEndTime\<close>.  Otherwise, when the sample
  drawn is not below the breakdown probability, the machine is busy afterwards and one
  event has been scheduled, at \<open>current time + processTimes[productType] +
  setupTimes[productType]\<close>; calling the action of that event in any state \<open>s'\<close> makes the
  machine idle and then calls its \<open>onProcessComplete\<close> for the product type.
\<close>

theorem startProcessing_contract:
  "((Machine_startProcessing u this p d s = s) \<longleftrightarrow>
      (isBusy (machine this s)
       \<or> Simulation_getCurrentTime s + processTimes (machine this s) p > d))
   \<and> (\<not> (isBusy (machine this s)
          \<or> Simulation_getCurrentTime s + processTimes (machine this s) p > d)
        \<and> \<not> u this (generator (machine this s)) < breakdownProbability (machine this s)
      \<longrightarrow> isBusy (machine this (Machine_startProcessing u this p d s))
          \<and> eventQueue (Machine_startProcessing u this p d s) =
              priority_queue_push (eventQueue s)
                \<lparr>time = Simulation_getCurrentTime s + processTimes (machine this s) p
                          + setupTimes (machine this s) p,
                 action = CompleteLambda this p\<rparr>)
   \<and> \<not> isBusy (machine this (machine_update this (\<lambda>m. m\<lparr>isBusy := False\<rparr>) s'))
   \<and> call_action u (CompleteLambda this p) s' =
         call_onProcessComplete u (onProcessComplete (machine this s')) p
           (print (MachineFinished (name (machine this s')) p (Simulation_getCurrentTime s'))
              (machine_update this (\<lambda>m. m\<lparr>isBusy := False\<rparr>) s'))"
proof -
  have "Machine_startProcessing u this p d s \<noteq> s" if "\<not> rejects this p d s"
  proof
    assume "Machine_startProcessing u this p d s = s"
    then have "isBusy (machine this (Machine_startProcessing u this p d s)) = isBusy (machine this s)"
      by simp
    with that show False
      by (simp add: startProcessing_accepted) (simp add: rejects_def)
  qed
  then have "(Machine_startProcessing u this p d s = s) \<longleftrightarrow> rejects this p d s"
    using startProcessing_rejected by blast
  moreover have "isBusy (machine this (Machine_startProcessing u this p d s))
      \<and> eventQueue (Machine_startProcessing u this p d s) =
          priority_queue_push (eventQueue s)
            \<lparr>time = currentTime s + processTimes (machine this s) p
                      + setupTimes (machine this s) p,
             action = CompleteLambda this p\<rparr>"
    if "\<not> rejects this p d s" "\<not> breaks_down u this s"
    using that by (simp add: startProcessing_accepted add.assoc)
  ultimately show ?thesis
    by (simp add: rejects_def breaks_down_def Let_def)
qed

text \<open>
  The contract of C3 at the first machine of a new system, for a deadline of 8 hours: the
  unit is accepted and the completion is scheduled at time 3.
\<close>

theorem startProcessing_contract_witness:
  "\<not> (isBusy (machine RawMaterialHandler (ManufacturingSystem_new 8 1 0))
       \<or> Simulation_getCurrentTime (ManufacturingSystem_new 8 1 0)
            + processTimes (machine RawMaterialHandler (ManufacturingSystem_new 8 1 0)) ''ProductA''
          > 8)
   \<and> \<not> steady RawMaterialHandler
          (generator (machine RawMaterialHandler (ManufacturingSystem_new 8 1 0)))
        < breakdownProbability (machine RawMaterialHandler (ManufacturingSystem_new 8 1 0))
   \<and> isBusy (machine RawMaterialHandler
        (Machine_startProcessing steady RawMaterialHandler ''ProductA'' 8
           (ManufacturingSystem_new 8 1 0)))
   \<and> eventQueue (Machine_startProcessing steady RawMaterialHandler ''ProductA'' 8
           (ManufacturingSystem_new 8 1 0))
       = priority_queue_push []
           \<lparr>time = 3, action = CompleteLambda RawMaterialHandler ''ProductA''\<rparr>"
  using startProcessing_contract [of steady RawMaterialHandler "''ProductA''" 8
      "ManufacturingSystem_new 8 1 0"]
  by (simp add: ManufacturingSystem_new_def Machine_new_def unordered_map_def steady_def)

text \<open>
  C6.  \<open>finishProduct\<close> adds exactly one to \<open>productsCompleted\<close>.  When the current
  time is less than \<open>shiftEndTime\<close> and the product queue is not empty, it removes the
  front of the queue and passes it to \<open>startProcessing\<close> of the first machine; otherwise
  it does nothing more.  When the current time equals \<open>shiftEndTime\<close>, the queue, the
  first machine and the schedule are unchanged.
\<close>

theorem finishProduct_contract:
  "productsCompleted (finishProduct u p s) = productsCompleted s + 1
   \<and> (Simulation_getCurrentTime s < shiftEndTime s \<and> productQueue s \<noteq> [] \<longrightarrow>
        finishProduct u p s =
          Machine_startProcessing u RawMaterialHandler (hd (productQueue s)) (shiftEndTime s)
            (print (ProductFinished p (Simulation_getCurrentTime s))
               (s\<lparr>productsCompleted := productsCompleted s + 1\<rparr>)
             \<lparr>productQueue := tl (productQueue s)\<rparr>)
        \<and> productQueue (finishProduct u p s) = tl (productQueue s))
   \<and> (\<not> (Simulation_getCurrentTime s < shiftEndTime s \<and> productQueue s \<noteq> []) \<longrightarrow>
        finishProduct u p s =
          print (ProductFinished p (Simulation_getCurrentTime s))
            (s\<lparr>productsCompleted := productsCompleted s + 1\<rparr>))
   \<and> (Simulation_getCurrentTime s = shiftEndTime s \<longrightarrow>
        productQueue (finishProduct u p s) = productQueue s
        \<and> rawMaterialHandler (finishProduct u p s) = rawMaterialHandler s
        \<and> eventQueue (finishProduct u p s) = eventQueue s)"
  by (simp add: finishProduct_def startProduction_def Let_def print_def)

text \<open>
  C6 at a new system: with shift end time 8 and current time 0 the front of the queue is
  pulled, with shift end time 0 and current time 0 it is not.
\<close>

theorem finishProduct_contract_witness:
  "Simulation_getCurrentTime (ManufacturingSystem_new 8 1 8) = 0
   \<and> shiftEndTime (ManufacturingSystem_new 8 1 8) = 8
   \<and> productQueue (ManufacturingSystem_new 8 1 8) \<noteq> []
   \<and> productsCompleted (finishProduct steady ''ProductA'' (ManufacturingSystem_new 8 1 8)) = 1
   \<and> productQueue (finishProduct steady ''ProductA'' (ManufacturingSystem_new 8 1 8))
       = tl (productQueue (ManufacturingSystem_new 8 1 8))
   \<and> Simulation_getCurrentTime (ManufacturingSystem_new 8 1 0)
       = shiftEndTime (ManufacturingSystem_new 8 1 0)
   \<and> productQueue (finishProduct steady ''ProductA'' (ManufacturingSystem_new 8 1 0))
       = productQueue (ManufacturingSystem_new 8 1 0)"
  using finishProduct_contract [of steady "''ProductA''" "ManufacturingSystem_new 8 1 8"]
    finishProduct_contract [of steady "''ProductA''" "ManufacturingSystem_new 8 1 0"]
  by (simp add: ManufacturingSystem_new_def)

text \<open>
  C10.  For a machine that is idle and does not break down, and a product whose setup time
  is positive, there are deadlines \<open>d\<close> with \<open>current time + processTimes \<le> d <
  current time + processTimes + setupTimes\<close>; for each of them the unit is accepted and its
  completion event is scheduled at a time after \<open>d\<close>.
\<close>

theorem completion_after_shift_end:
  assumes "0 < setupTimes (machine this s) p"
    and "\<not> isBusy (machine this s)"
    and "\<not> u this (generator (machine this s)) < breakdownProbability (machine this s)"
  shows "(\<exists>d. Simulation_getCurrentTime s + processTimes (machine this s) p \<le> d
            \<and> d < Simulation_getCurrentTime s + processTimes (machine this s) p
                    + setupTimes (machine this s) p)
     \<and> (\<forall>d. Simulation_getCurrentTime s + processTimes (machine this s) p \<le> d
            \<and> d < Simulation_getCurrentTime s + processTimes (machine this s) p
                    + setupTimes (machine this s) p
          \<longrightarrow> (\<exists>t. d < t
                \<and> isBusy (machine this (Machine_startProcessing u this p d s))
                \<and> eventQueue (Machine_startProcessing u this p d s) =
                    priority_queue_push (eventQueue s)
                      \<lparr>time = t, action = CompleteLambda this p\<rparr>))"
proof (intro conjI allI impI)
  show "\<exists>d. Simulation_getCurrentTime s + processTimes (machine this s) p \<le> d
            \<and> d < Simulation_getCurrentTime s + processTimes (machine this s) p
                    + setupTimes (machine this s) p"
    using assms(1) by (intro exI [of _ "Simulation_getCurrentTime s + processTimes (machine this s) p"]) simp
next
  fix d
  assume d: "Simulation_getCurrentTime s + processTimes (machine this s) p \<le> d
            \<and> d < Simulation_getCurrentTime s + processTimes (machine this s) p
                    + setupTimes (machine this s) p"
  with assms have "\<not> rejects this p d s" "\<not> breaks_down u this s"
    by (simp_all add: rejects_def breaks_down_def)
  with d show "\<exists>t. d < t
                \<and> isBusy (machine this (Machine_startProcessing u this p d s))
                \<and> eventQueue (Machine_startProcessing u this p d s) =
                    priority_queue_push (eventQueue s)
                      \<lparr>time = t, action = CompleteLambda this p\<rparr>"
    by (intro exI [of _ "currentTime s + (processTimes (machine this s) p + setupTimes (machine this s) p)"])
      (simp add: startProcessing_accepted add.assoc)
qed

text \<open>
  C10 at the first machine of a new system with a shift end time of 2: \<open>ProductA\<close> is
  accepted at time 0 and its completion is scheduled after time 2.
\<close>

theorem completion_after_shift_end_witness:
  "0 < setupTimes (machine RawMaterialHandler (ManufacturingSystem_new 2 1 0)) ''ProductA''
   \<and> \<not> isBusy (machine RawMaterialHandler (ManufacturingSystem_new 2 1 0))
   \<and> \<not> steady RawMaterialHandler
          (generator (machine RawMaterialHandler (ManufacturingSystem_new 2 1 0)))
        < breakdownProbability (machine RawMaterialHandler (ManufacturingSystem_new 2 1 0))
   \<and> (\<exists>t. 2 < t
        \<and> isBusy (machine RawMaterialHandler
             (Machine_startProcessing steady RawMaterialHandler ''ProductA'' 2
                (ManufacturingSystem_new 2 1 0)))
        \<and> eventQueue (Machine_startProcessing steady RawMaterialHandler ''ProductA'' 2
                (ManufacturingSystem_new 2 1 0))
            = priority_queue_push (eventQueue (ManufacturingSystem_new 2 1 0))
                \<lparr>time = t, action = CompleteLambda RawMaterialHandler ''ProductA''\<rparr>)"
proof -
  let ?s = "ManufacturingSystem_new 2 1 0"
  have h1: "0 < setupTimes (machine RawMaterialHandler ?s) ''ProductA''"
    and h2: "\<not> isBusy (machine RawMaterialHandler ?s)"
    and h3: "\<not> steady RawMaterialHandler (generator (machine RawMaterialHandler ?s))
               < breakdownProbability (machine RawMaterialHandler ?s)"
    by (simp_all add: ManufacturingSystem_new_def Machine_new_def unordered_map_def steady_def)
  have d: "Simulation_getCurrentTime ?s + processTimes (machine RawMaterialHandler ?s) ''ProductA'' \<le> 2
      \<and> 2 < Simulation_getCurrentTime ?s + processTimes (machine RawMaterialHandler ?s) ''ProductA''
             + setupTimes (machine RawMaterialHandler ?s) ''ProductA''"
    by (simp add: ManufacturingSystem_new_def Machine_new_def unordered_map_def)
  from completion_after_shift_end [where u = steady and this = RawMaterialHandler
      and s = ?s and p = "''ProductA''", OF h1 h2 h3] d h1 h2 h3
  show ?thesis
    by blast
qed

text \<open>
  C2.  What the code does after a breakdown: an idle machine that accepts a unit and draws
  a breakdown is busy afterwards and has scheduled the retry closure after its
  maintenance time; but calling the retry closure in any state in which the machine is
  still busy returns that state unchanged, whatever is drawn and whatever the time is.
  Nothing resets \<open>isBusy\<close> in between, so the retried unit is never processed and the
  machine never becomes idle again.
\<close>

theorem breakdown_retry_rejected:
  assumes "\<not> isBusy (machine this s)"
    and "\<not> Simulation_getCurrentTime s + processTimes (machine this s) p > d"
    and "u this (generator (machine this s)) < breakdownProbability (machine this s)"
  shows "isBusy (machine this (Machine_startProcessing u this p d s))
    \<and> eventQueue (Machine_startProcessing u this p d s) =
        priority_queue_push (eventQueue s)
          \<lparr>time = Simulation_getCurrentTime s + maintenanceTime (machine this s),
           action = RetryLambda this p d\<rparr>
    \<and> (\<forall>u' s'. isBusy (machine this s') \<longrightarrow> call_action u' (RetryLambda this p d) s' = s')"
proof -
  from assms have "\<not> rejects this p d s" "breaks_down u this s"
    by (simp_all add: rejects_def breaks_down_def)
  then show ?thesis
    by (simp add: startProcessing_accepted) (simp add: startProcessing_rejected rejects_def)
qed

text \<open>
  C2 at the first machine of a new system with a shift of 30 hours, when its first sample
  is below the breakdown probability: the retry leaves the state as it is.
\<close>

theorem breakdown_retry_rejected_witness:
  "\<not> isBusy (machine RawMaterialHandler (ManufacturingSystem_new 30 1 0))
   \<and> \<not> Simulation_getCurrentTime (ManufacturingSystem_new 30 1 0)
          + processTimes (machine RawMaterialHandler (ManufacturingSystem_new 30 1 0)) ''ProductA''
        > 30
   \<and> first_draw_breaks RawMaterialHandler RawMaterialHandler
        (generator (machine RawMaterialHandler (ManufacturingSystem_new 30 1 0)))
      < breakdownProbability (machine RawMaterialHandler (ManufacturingSystem_new 30 1 0))
   \<and> isBusy (machine RawMaterialHandler
        (Machine_startProcessing (first_draw_breaks RawMaterialHandler) RawMaterialHandler
           ''ProductA'' 30 (ManufacturingSystem_new 30 1 0)))
   \<and> call_action steady (RetryLambda RawMaterialHandler ''ProductA'' 30)
        (Machine_startProcessing (first_draw_breaks RawMaterialHandler) RawMaterialHandler
           ''ProductA'' 30 (ManufacturingSystem_new 30 1 0))
      = Machine_startProcessing (first_draw_breaks RawMaterialHandler) RawMaterialHandler
           ''ProductA'' 30 (ManufacturingSystem_new 30 1 0)"
proof -
  let ?s = "ManufacturingSystem_new 30 1 0"
  have h1: "\<not> isBusy (machine RawMaterialHandler ?s)"
    and h2: "\<not> Simulation_getCurrentTime ?s
          + processTimes (machine RawMaterialHandler ?s) ''ProductA'' > 30"
    and h3: "first_draw_breaks RawMaterialHandler RawMaterialHandler
        (generator (machine RawMaterialHandler ?s))
      < breakdownProbability (machine RawMaterialHandler ?s)"
    by (simp_all add: ManufacturingSystem_new_def Machine_new_def unordered_map_def
        first_draw_breaks_def)
  from breakdown_retry_rejected [where u = "first_draw_breaks RawMaterialHandler"
      and this = RawMaterialHandler and s = ?s and p = "''ProductA''" and d = 30, OF h1 h2 h3]
    h1 h2 h3
  show ?thesis
    by blast
qed

text \<open>
  The whole run for that input: the first machine is still busy when the run ends, no
  product is completed and nothing is printed between the breakdown and the end of the
  shift.
\<close>

theorem breakdown_run_stuck:
  "map_option (\<lambda>s. (isBusy (rawMaterialHandler s), productsCompleted s, cout s, eventQueue s))
     (ManufacturingSystem_run (first_draw_breaks RawMaterialHandler)
        (ManufacturingSystem_new 30 1 0))
   = Some (True, 0,
       [ShiftStarted 1 0, MachineStarted ''Raw Material Handler'' ''ProductA'' 0,
        MachineBrokeDown ''Raw Material Handler'', ShiftEnded 1 30, Results 0 30], [])"
  by code_simp

text \<open>
  C9 (as the code has it).  \<open>scheduleEvent\<close> inserts the event whatever its timestamp
  is: the queue afterwards holds the events it held before and the new one, and nothing
  else of the state changes.  There is no comparison with the current time.
\<close>

theorem scheduleEvent_unguarded:
  "mset (eventQueue (Simulation_scheduleEvent t a s))
     = add_mset \<lparr>time = t, action = a\<rparr> (mset (eventQueue s))
   \<and> currentTime (Simulation_scheduleEvent t a s) = currentTime s
   \<and> Simulation.more (Simulation_scheduleEvent t a s) = Simulation.more s"
  by simp

text \<open>
  C9 fails as stated: for a shift duration of \<open>-1\<close>, after the first iteration of the
  run the current time is 0 and the queue holds the event that \<open>startShift\<close> scheduled
  at time \<open>-1\<close>; the run ends normally, with current time \<open>-1\<close>.
\<close>

theorem scheduleEvent_past_counterexample:
  "currentTime (Simulation_run_upto (call_action steady) 1
      (ManufacturingSystem_run_start (ManufacturingSystem_new (- 1) 1 0))) = 0
   \<and> eventQueue (Simulation_run_upto (call_action steady) 1
      (ManufacturingSystem_run_start (ManufacturingSystem_new (- 1) 1 0)))
       = [\<lparr>time = - 1, action = EndShiftLambda\<rparr>]
   \<and> map_option currentTime
       (ManufacturingSystem_run steady (ManufacturingSystem_new (- 1) 1 0)) = Some (- 1)"
  by code_simp

text \<open>
  C1 (as the code has it).  On a queue in heap order, scheduling keeps the heap order, and
  an iteration of \<open>run\<close> calls the action of an event whose timestamp is least among the
  pending events, removes exactly that event and keeps the heap order.  So pending
  events with equal timestamps are all called before any pending event with a later
  timestamp; their order among themselves is the order of the heap.
\<close>

theorem step_executes_least_timestamp:
  assumes "is_heap (eventQueue s)"
  shows "is_heap (eventQueue (Simulation_scheduleEvent t a s))
    \<and> (eventQueue s \<noteq> [] \<longrightarrow>
         Simulation_step exec s =
           exec (action (priority_queue_top (eventQueue s)))
             (s\<lparr>eventQueue := priority_queue_pop (eventQueue s),
                currentTime := time (priority_queue_top (eventQueue s))\<rparr>)
         \<and> (\<forall>e\<in>set (eventQueue s). time (priority_queue_top (eventQueue s)) \<le> time e)
         \<and> add_mset (priority_queue_top (eventQueue s))
              (mset (priority_queue_pop (eventQueue s))) = mset (eventQueue s)
         \<and> is_heap (priority_queue_pop (eventQueue s)))"
  using assms priority_queue_pop_props [of "eventQueue s"]
  by (auto simp add: is_heap_priority_queue_push Simulation_step_def Let_def
      priority_queue_top_min)

text \<open>
  C1 (as the code has it) for two events scheduled at time 0.
\<close>

theorem step_executes_least_timestamp_witness:
  "is_heap (eventQueue (Simulation_scheduleEvent 0 2 (Simulation_scheduleEvent 0 1 Trace_new)))
   \<and> eventQueue (Simulation_scheduleEvent 0 2 (Simulation_scheduleEvent 0 1 Trace_new)) \<noteq> []
   \<and> is_heap (priority_queue_pop
         (eventQueue (Simulation_scheduleEvent 0 2 (Simulation_scheduleEvent 0 1 Trace_new))))
   \<and> add_mset
         (priority_queue_top
           (eventQueue (Simulation_scheduleEvent 0 2 (Simulation_scheduleEvent 0 1 Trace_new))))
         (mset (priority_queue_pop
           (eventQueue (Simulation_scheduleEvent 0 2 (Simulation_scheduleEvent 0 1 Trace_new)))))
       = mset (eventQueue (Simulation_scheduleEvent 0 2 (Simulation_scheduleEvent 0 1 Trace_new)))"
proof -
  let ?s = "Simulation_scheduleEvent 0 2 (Simulation_scheduleEvent 0 1 Trace_new)"
  have h: "is_heap (eventQueue ?s)" by code_simp
  have ne: "eventQueue ?s \<noteq> []" by code_simp
  from step_executes_least_timestamp [OF h, of 0 0 Trace_call] h ne show ?thesis
    by blast
qed

text \<open>
  C1 fails as stated.  Four events are scheduled at time 0, numbered in the order of
  scheduling: the run calls the third before the second.  And in the run of the
  manufacturing system for a shift duration of 9, a shift count of 3 and no breakdown,
  the end of the third shift is scheduled at time 18 for time 27 (when the line
  \<open>ShiftStarted 3 18\<close> is printed) and the completion of \<open>ProductB\<close> on the assembly
  machine is scheduled later, at time 19.5, for the same time 27 (when
  \<open>MachineStarted Assembly ProductB 19.5\<close> is printed); at time 27 the completion is
  called first.
\<close>

theorem fifo_tie_break_counterexample:
  "map_option executed
     (Simulation_run Trace_call
        (Simulation_scheduleEvent 0 4 (Simulation_scheduleEvent 0 3
          (Simulation_scheduleEvent 0 2 (Simulation_scheduleEvent 0 1 Trace_new)))))
   = Some [1, 3, 2, 4]
   \<and> map_option cout (ManufacturingSystem_run steady (ManufacturingSystem_new 9 3 0))
   = Some
      [ShiftStarted 1 0, MachineStarted ''Raw Material Handler'' ''ProductA'' 0,
       MachineFinished ''Raw Material Handler'' ''ProductA'' 3,
       MachineStarted ''Machining'' ''ProductA'' 3,
       MachineFinished ''Machining'' ''ProductA'' 7, ShiftEnded 1 9,
       ShiftStarted 2 9, MachineStarted ''Raw Material Handler'' ''ProductB'' 9,
       MachineFinished ''Raw Material Handler'' ''ProductB'' (27 / 2),
       MachineStarted ''Machining'' ''ProductB'' (27 / 2), ShiftEnded 2 18,
       ShiftStarted 3 18,
       MachineStarted ''Raw Material Handler'' ''ProductA'' 18,
       MachineFinished ''Machining'' ''ProductB'' (39 / 2),
       MachineStarted ''Assembly'' ''ProductB'' (39 / 2),
       MachineFinished ''Raw Material Handler'' ''ProductA'' 21,
       MachineStarted ''Machining'' ''ProductA'' 21,
       MachineFinished ''Machining'' ''ProductA'' 25,
       MachineFinished ''Assembly'' ''ProductB'' 27, ShiftEnded 3 27,
       Results 0 27]"
  by code_simp

section \<open>The claims about the run\<close>

text \<open>
  The states of a run are the states \<open>Simulation_run_upto (call_action u) n\<close> of the
  system on which \<open>ManufacturingSystem::run\<close> has scheduled the first \<open>startShift\<close>,
  for the numbers \<open>n\<close> of iterations; by \<open>ManufacturingSystem_run_ends\<close> the run ends and
  its final state is one of them.  The specification configures the system with two
  positive integers, the shift duration and the shift count.
\<close>

text \<open>
  C4.  For a shift duration of the configuration (the proof needs only that it is not
  negative), the current time never decreases during \<open>ManufacturingSystem::run\<close>: after
  any number \<open>n\<close> of iterations of the loop of \<open>Simulation::run\<close>, the next iteration (if
  there is one) sets the current time to a timestamp that is not smaller.  This holds
  for every shift count and every sequence of samples.
\<close>

theorem current_time_monotone:
  assumes "0 \<le> sd"
  shows "currentTime (Simulation_run_upto (call_action u) n
           (ManufacturingSystem_run_start (ManufacturingSystem_new sd sc g)))
         \<le> currentTime (Simulation_run_upto (call_action u) (Suc n)
             (ManufacturingSystem_run_start (ManufacturingSystem_new sd sc g)))"
proof -
  let ?s = "Simulation_run_upto (call_action u) n
           (ManufacturingSystem_run_start (ManufacturingSystem_new sd sc g))"
  have "causal ?s"
    by (rule run_upto_invariant) (simp_all add: causal_run_start assms causal_step)
  then show ?thesis
    using causal_step [of ?s u] unfolding run_upto_Suc by simp
qed

text \<open>C4 for a shift of 8 hours, between the first and the second event.\<close>

theorem current_time_monotone_witness:
  "(0::int) \<le> 8
   \<and> currentTime (Simulation_run_upto (call_action steady) 1
         (ManufacturingSystem_run_start (ManufacturingSystem_new 8 1 0)))
       \<le> currentTime (Simulation_run_upto (call_action steady) (Suc 1)
           (ManufacturingSystem_run_start (ManufacturingSystem_new 8 1 0)))"
  using current_time_monotone [of 8 steady 1 1 0] by simp

text \<open>
  The hypothesis on the shift duration is needed, since the constructor takes any
  \<open>int\<close>: for a shift duration of \<open>-2\<close>, which the configuration excludes, the current
  time is 0 after the first iteration and \<open>-2\<close> after the second.
\<close>

lemma negative_shift_duration_moves_time_back:
  "currentTime (Simulation_run_upto (call_action steady) 1
      (ManufacturingSystem_run_start (ManufacturingSystem_new (- 2) 1 0))) = 0
   \<and> currentTime (Simulation_run_upto (call_action steady) 2
      (ManufacturingSystem_run_start (ManufacturingSystem_new (- 2) 1 0))) = - 2"
  by code_simp

text \<open>
  C5.  \<open>startShift\<close> adds exactly one to \<open>currentShift\<close>.  For a shift count of the
  configuration (at least 1), \<open>currentShift\<close> is never negative and never exceeds
  \<open>shiftCount\<close> during the run, and an iteration leaves it unchanged or adds one.
  \<open>endShift\<close> prints the end of the shift; when \<open>currentShift < shiftCount\<close> it schedules
  \<open>startShift\<close> at the current time, and otherwise it schedules nothing and prints the
  results.
\<close>

theorem shift_counter_bounded:
  assumes "1 \<le> sc"
  shows "currentShift (startShift u s) = currentShift s + 1
   \<and> 0 \<le> currentShift (Simulation_run_upto (call_action u) n
            (ManufacturingSystem_run_start (ManufacturingSystem_new sd sc g)))
   \<and> currentShift (Simulation_run_upto (call_action u) n
        (ManufacturingSystem_run_start (ManufacturingSystem_new sd sc g))) \<le> sc
   \<and> (currentShift (Simulation_run_upto (call_action u) (Suc n)
          (ManufacturingSystem_run_start (ManufacturingSystem_new sd sc g)))
        = currentShift (Simulation_run_upto (call_action u) n
            (ManufacturingSystem_run_start (ManufacturingSystem_new sd sc g)))
      \<or> currentShift (Simulation_run_upto (call_action u) (Suc n)
          (ManufacturingSystem_run_start (ManufacturingSystem_new sd sc g)))
        = currentShift (Simulation_run_upto (call_action u) n
            (ManufacturingSystem_run_start (ManufacturingSystem_new sd sc g))) + 1)
   \<and> (currentShift s < shiftCount s \<longrightarrow>
        endShift s =
          Simulation_scheduleEvent (Simulation_getCurrentTime s) StartShiftLambda
            (print (ShiftEnded (currentShift s) (Simulation_getCurrentTime s)) s))
   \<and> (\<not> currentShift s < shiftCount s \<longrightarrow>
        endShift s =
          print (Results (productsCompleted s) (Simulation_getCurrentTime s))
            (print (ShiftEnded (currentShift s) (Simulation_getCurrentTime s)) s))"
  using shift_counter_general [of u s n sd sc g] assms by (simp add: max_absorb2)

text \<open>
  C5 for a shift count of 2: \<open>endShift\<close> before the first of two shifts and after the only
  shift of a system, and the bound after three iterations of a run of two shifts.
\<close>

theorem shift_counter_bounded_witness:
  "(1::int) \<le> 2
   \<and> currentShift (ManufacturingSystem_new 8 2 0) < shiftCount (ManufacturingSystem_new 8 2 0)
   \<and> endShift (ManufacturingSystem_new 8 2 0) =
       Simulation_scheduleEvent (Simulation_getCurrentTime (ManufacturingSystem_new 8 2 0))
         StartShiftLambda
         (print (ShiftEnded (currentShift (ManufacturingSystem_new 8 2 0))
                   (Simulation_getCurrentTime (ManufacturingSystem_new 8 2 0)))
            (ManufacturingSystem_new 8 2 0))
   \<and> \<not> currentShift (startShift steady (ManufacturingSystem_new 8 1 0))
         < shiftCount (startShift steady (ManufacturingSystem_new 8 1 0))
   \<and> endShift (startShift steady (ManufacturingSystem_new 8 1 0)) =
       print (Results (productsCompleted (startShift steady (ManufacturingSystem_new 8 1 0)))
                (Simulation_getCurrentTime (startShift steady (ManufacturingSystem_new 8 1 0))))
         (print (ShiftEnded (currentShift (startShift steady (ManufacturingSystem_new 8 1 0)))
                   (Simulation_getCurrentTime (startShift steady (ManufacturingSystem_new 8 1 0))))
            (startShift steady (ManufacturingSystem_new 8 1 0)))
   \<and> currentShift (Simulation_run_upto (call_action steady) 3
        (ManufacturingSystem_run_start (ManufacturingSystem_new 8 2 0))) \<le> 2"
proof -
  have h0: "(1::int) \<le> 2" by simp
  have h1: "currentShift (ManufacturingSystem_new 8 2 0) < shiftCount (ManufacturingSystem_new 8 2 0)"
    by (simp add: ManufacturingSystem_new_def)
  have h2: "\<not> currentShift (startShift steady (ManufacturingSystem_new 8 1 0))
         < shiftCount (startShift steady (ManufacturingSystem_new 8 1 0))"
    by (simp add: ManufacturingSystem_new_def)
  from h0 h1 h2
    shift_counter_bounded [OF h0, where u = steady and s = "ManufacturingSystem_new 8 2 0"
      and n = 3 and sd = 8 and g = 0]
    shift_counter_bounded [OF h0, where u = steady
      and s = "startShift steady (ManufacturingSystem_new 8 1 0)" and n = 3 and sd = 8 and g = 0]
  show ?thesis by blast
qed

text \<open>
  The hypothesis on the shift count is needed, since \<open>run\<close> schedules the first
  \<open>startShift\<close> whatever the shift count is: for a shift count of 0, which the
  configuration excludes, \<open>currentShift\<close> is 1 after the first iteration.
\<close>

lemma first_shift_always_starts:
  "shiftCount (Simulation_run_upto (call_action steady) 1
      (ManufacturingSystem_run_start (ManufacturingSystem_new 8 0 0))) = 0
   \<and> currentShift (Simulation_run_upto (call_action steady) 1
      (ManufacturingSystem_run_start (ManufacturingSystem_new 8 0 0))) = 1"
  by code_simp

text \<open>
  C7.  The units admitted to the first stage are the units that \<open>rawMaterialHandler\<close> has
  accepted; their number is its \<open>generator\<close>, which is 0 in a new system and grows by one
  exactly when its \<open>startProcessing\<close> accepts a unit (\<open>accepted_startProcessing\<close>).  A
  unit that \<open>startProduction\<close> takes from the product queue and the first stage rejects
  is not among them.  After any number \<open>n\<close> of iterations of the run: the product queue
  is what remains of the original queue of 200 units after removing units from its
  front; \<open>productsCompleted\<close> is at least 0 and at most the number of units admitted; the
  number of units admitted is at most the number of units taken from the queue, which is
  at most 200; and the next iteration does not decrease \<open>productsCompleted\<close> or the number
  of units admitted, and leaves of the product queue a suffix of it.
\<close>

theorem conservation_bounded_loss:
  "suffix (productQueue (Simulation_run_upto (call_action u) n
              (ManufacturingSystem_run_start (ManufacturingSystem_new sd sc g))))
     (productQueue (ManufacturingSystem_new sd sc g))
   \<and> length (productQueue (ManufacturingSystem_new sd sc g)) = 200
   \<and> generator (rawMaterialHandler (ManufacturingSystem_new sd sc g)) = 0
   \<and> 0 \<le> productsCompleted (Simulation_run_upto (call_action u) n
            (ManufacturingSystem_run_start (ManufacturingSystem_new sd sc g)))
   \<and> productsCompleted (Simulation_run_upto (call_action u) n
          (ManufacturingSystem_run_start (ManufacturingSystem_new sd sc g)))
       \<le> int (generator (rawMaterialHandler (Simulation_run_upto (call_action u) n
                (ManufacturingSystem_run_start (ManufacturingSystem_new sd sc g)))))
   \<and> int (generator (rawMaterialHandler (Simulation_run_upto (call_action u) n
                (ManufacturingSystem_run_start (ManufacturingSystem_new sd sc g)))))
       \<le> 200 - int (length (productQueue (Simulation_run_upto (call_action u) n
                (ManufacturingSystem_run_start (ManufacturingSystem_new sd sc g)))))
   \<and> 200 - int (length (productQueue (Simulation_run_upto (call_action u) n
                (ManufacturingSystem_run_start (ManufacturingSystem_new sd sc g))))) \<le> 200
   \<and> productsCompleted (Simulation_run_upto (call_action u) n
          (ManufacturingSystem_run_start (ManufacturingSystem_new sd sc g)))
       \<le> productsCompleted (Simulation_run_upto (call_action u) (Suc n)
            (ManufacturingSystem_run_start (ManufacturingSystem_new sd sc g)))
   \<and> generator (rawMaterialHandler (Simulation_run_upto (call_action u) n
          (ManufacturingSystem_run_start (ManufacturingSystem_new sd sc g))))
       \<le> generator (rawMaterialHandler (Simulation_run_upto (call_action u) (Suc n)
            (ManufacturingSystem_run_start (ManufacturingSystem_new sd sc g))))
   \<and> suffix
        (productQueue (Simulation_run_upto (call_action u) (Suc n)
          (ManufacturingSystem_run_start (ManufacturingSystem_new sd sc g))))
        (productQueue (Simulation_run_upto (call_action u) n
          (ManufacturingSystem_run_start (ManufacturingSystem_new sd sc g))))"
proof -
  let ?backlog = "productQueue (ManufacturingSystem_new sd sc g)"
  let ?init = "ManufacturingSystem_run_start (ManufacturingSystem_new sd sc g)"
  let ?st = "Simulation_run_upto (call_action u) n ?init"
  let ?next = "Simulation_run_upto (call_action u) (Suc n) ?init"
  have empty: "eventQueue (ManufacturingSystem_new sd sc g) = []"
    by (simp add: ManufacturingSystem_new_def)
  have "run_inv ?st \<and> admitted_ok ?backlog ?st"
    by (rule run_upto_invariant)
      (simp_all add: run_inv_run_start [OF empty pipeline_wired_new] admitted_ok_run_start
        run_inv_step admitted_ok_step)
  then obtain k where k: "k \<le> length ?backlog" "productQueue ?st = drop k ?backlog"
    "productsCompleted ?st \<le> int (generator (rawMaterialHandler ?st))"
    "generator (rawMaterialHandler ?st) \<le> k" and nonneg: "0 \<le> productsCompleted ?st"
    by (auto simp add: admitted_ok_def)
  from k(2) have suffix: "suffix (productQueue ?st) ?backlog"
    by (simp add: suffix_drop)
  from k have bound: "int (generator (rawMaterialHandler ?st))
      \<le> 200 - int (length (productQueue ?st))"
    by (simp add: length_backlog_new)
  have step: "productsCompleted s \<le> productsCompleted (Simulation_step (call_action u) s)
      \<and> generator (rawMaterialHandler s)
          \<le> generator (rawMaterialHandler (Simulation_step (call_action u) s))
      \<and> suffix (productQueue (Simulation_step (call_action u) s)) (productQueue s)" for s
    using call_action_monotone
      [of "s\<lparr>eventQueue := priority_queue_pop (eventQueue s),
            currentTime := time (priority_queue_top (eventQueue s))\<rparr>" u]
      accepted_call_action
      [of "s\<lparr>eventQueue := priority_queue_pop (eventQueue s),
            currentTime := time (priority_queue_top (eventQueue s))\<rparr>" u]
    by (simp add: Simulation_step_def Let_def)
  have "productsCompleted ?st \<le> productsCompleted ?next
        \<and> generator (rawMaterialHandler ?st) \<le> generator (rawMaterialHandler ?next)
        \<and> suffix (productQueue ?next) (productQueue ?st)"
    unfolding run_upto_Suc using step [of ?st] by simp
  moreover have "generator (rawMaterialHandler (ManufacturingSystem_new sd sc g)) = 0"
    by (simp add: ManufacturingSystem_new_def Machine_new_def)
  ultimately show ?thesis
    using suffix nonneg bound k(3) length_backlog_new [of sd sc g] by simp
qed

text \<open>
  C7 in a run with one shift of 20 hours, after five iterations, when a sixth follows (it
  completes the first product); and in a run with one shift of 1 hour, where the only
  unit taken from the queue is rejected by the first stage and is not counted as
  admitted.
\<close>

theorem conservation_bounded_loss_witness:
  "eventQueue (Simulation_run_upto (call_action steady) 5
      (ManufacturingSystem_run_start (ManufacturingSystem_new 20 1 0))) \<noteq> []
   \<and> productsCompleted (Simulation_run_upto (call_action steady) 5
          (ManufacturingSystem_run_start (ManufacturingSystem_new 20 1 0)))
       \<le> int (generator (rawMaterialHandler (Simulation_run_upto (call_action steady) 5
                (ManufacturingSystem_run_start (ManufacturingSystem_new 20 1 0)))))
   \<and> int (generator (rawMaterialHandler (Simulation_run_upto (call_action steady) 5
                (ManufacturingSystem_run_start (ManufacturingSystem_new 20 1 0)))))
       \<le> 200 - int (length (productQueue (Simulation_run_upto (call_action steady) 5
                (ManufacturingSystem_run_start (ManufacturingSystem_new 20 1 0)))))
   \<and> productsCompleted (Simulation_run_upto (call_action steady) 5
          (ManufacturingSystem_run_start (ManufacturingSystem_new 20 1 0)))
       \<le> productsCompleted (Simulation_run_upto (call_action steady) (Suc 5)
            (ManufacturingSystem_run_start (ManufacturingSystem_new 20 1 0)))
   \<and> productsCompleted (Simulation_run_upto (call_action steady) (Suc 5)
            (ManufacturingSystem_run_start (ManufacturingSystem_new 20 1 0))) = 1
   \<and> generator (rawMaterialHandler (Simulation_run_upto (call_action steady) 1
            (ManufacturingSystem_run_start (ManufacturingSystem_new 1 1 0)))) = 0
   \<and> length (productQueue (Simulation_run_upto (call_action steady) 1
            (ManufacturingSystem_run_start (ManufacturingSystem_new 1 1 0)))) = 199"
proof -
  have a: "eventQueue (Simulation_run_upto (call_action steady) 5
      (ManufacturingSystem_run_start (ManufacturingSystem_new 20 1 0))) \<noteq> []"
    by code_simp
  have b: "productsCompleted (Simulation_run_upto (call_action steady) (Suc 5)
            (ManufacturingSystem_run_start (ManufacturingSystem_new 20 1 0))) = 1"
    by code_simp
  have c: "generator (rawMaterialHandler (Simulation_run_upto (call_action steady) 1
            (ManufacturingSystem_run_start (ManufacturingSystem_new 1 1 0)))) = 0"
    by code_simp
  have d: "length (productQueue (Simulation_run_upto (call_action steady) 1
            (ManufacturingSystem_run_start (ManufacturingSystem_new 1 1 0)))) = 199"
    by code_simp
  from conservation_bounded_loss [of steady 5 20 1 0] a b c d show ?thesis
    by blast
qed

text \<open>
  C8.  Take a system whose event queue is empty, whose machines are wired as the
  constructor wires them and whose breakdown probabilities are all 0, and two sequences
  of samples that are not negative.  Then \<open>ManufacturingSystem::run\<close> ends for both
  sequences, and with the same final state: the same current time, the same
  \<open>productsCompleted\<close> and the same output.  The value that \<open>shiftEndTime\<close> has before
  the run (it is not initialised) does not matter either.
\<close>

theorem breakdown_free_run_deterministic:
  assumes "eventQueue s = []" and "pipeline_wired s" and "never_breaks s"
    and "samples_nonneg u" and "samples_nonneg u'"
  shows "\<exists>final. ManufacturingSystem_run u s = Some final
           \<and> ManufacturingSystem_run u' (s\<lparr>shiftEndTime := g\<rparr>) = Some final"
proof -
  let ?init = "ManufacturingSystem_run_start s"
  let ?init' = "ManufacturingSystem_run_start (s\<lparr>shiftEndTime := g\<rparr>)"
  from run_terminates [OF run_inv_run_start [OF assms(1,2)], of u]
  obtain n where n: "eventQueue (Simulation_run_upto (call_action u) n ?init) = []" ..
  have nonempty: "eventQueue ?init \<noteq> []" "eventQueue ?init' \<noteq> []"
    using assms(1) by (simp_all add: ManufacturingSystem_run_start_def)
  with n obtain m where m: "n = Suc m" by (cases n) auto
  have nb: "never_breaks ?init"
    using assms(3) by (simp add: ManufacturingSystem_run_start_def)
  have "Simulation_run_upto (call_action u') n ?init' = Simulation_run_upto (call_action u') n ?init"
    using nonempty first_step_overwrites_shiftEndTime [OF assms(1), of u' g] by (simp add: m)
  also have "\<dots> = Simulation_run_upto (call_action u) n ?init"
    using run_upto_samples [OF nb assms(5,4), of n] .
  finally have same: "Simulation_run_upto (call_action u') n ?init'
      = Simulation_run_upto (call_action u) n ?init" .
  have "ManufacturingSystem_run u s = Some (Simulation_run_upto (call_action u) n ?init)"
    unfolding ManufacturingSystem_run_def using n by (rule Simulation_run_upto_result)
  moreover have "ManufacturingSystem_run u' (s\<lparr>shiftEndTime := g\<rparr>)
      = Some (Simulation_run_upto (call_action u') n ?init')"
    unfolding ManufacturingSystem_run_def using n same
    by (intro Simulation_run_upto_result) simp
  ultimately show ?thesis
    using same by simp
qed

text \<open>
  C8 for a new system of one shift of 8 hours with the breakdown probabilities set to 0,
  for two different sequences of samples and two initial values of \<open>shiftEndTime\<close>.
\<close>

theorem breakdown_free_run_deterministic_witness:
  "eventQueue (no_breakdowns (ManufacturingSystem_new 8 1 0)) = []
   \<and> pipeline_wired (no_breakdowns (ManufacturingSystem_new 8 1 0))
   \<and> never_breaks (no_breakdowns (ManufacturingSystem_new 8 1 0))
   \<and> samples_nonneg steady
   \<and> samples_nonneg (first_draw_breaks RawMaterialHandler)
   \<and> (\<exists>final.
        ManufacturingSystem_run steady (no_breakdowns (ManufacturingSystem_new 8 1 0))
          = Some final
        \<and> ManufacturingSystem_run (first_draw_breaks RawMaterialHandler)
            (no_breakdowns (ManufacturingSystem_new 8 1 0)\<lparr>shiftEndTime := 5\<rparr>)
          = Some final)"
proof -
  let ?s = "no_breakdowns (ManufacturingSystem_new 8 1 0)"
  have h1: "eventQueue ?s = []" and h2: "pipeline_wired ?s"
    by (simp_all add: no_breakdowns_def ManufacturingSystem_new_def Machine_new_def
        pipeline_wired_def)
  have h3: "never_breaks ?s"
    unfolding never_breaks_def
  proof
    fix i show "breakdownProbability (machine i ?s) = 0"
      by (cases i) (simp_all add: no_breakdowns_def)
  qed
  have h4: "samples_nonneg steady" and h5: "samples_nonneg (first_draw_breaks RawMaterialHandler)"
    by (simp_all add: samples_nonneg_def steady_def first_draw_breaks_def)
  from breakdown_free_run_deterministic [OF h1 h2 h3 h4 h5, of 5] h1 h2 h3 h4 h5
  show ?thesis by blast
qed

end
